theory Spec2Isabelle
  imports Main
begin

section \<open>Python values\<close>

text \<open>
  The values that flow through the client: request bodies, query values, decoded JSON
  payloads, resource identifiers. A Python \<open>str\<close> is a \<open>string\<close>, an unbounded
  Python \<open>int\<close> is an \<open>int\<close>, a \<open>dict\<close> is an association list in insertion order
  (its keys are strings here: JSON object keys, query keys, keyword names).
  Floats are not modelled.
\<close>

datatype pyval =
    PNone
  | PBool bool
  | PInt int
  | PStr string
  | PList "pyval list"
  | PDict "(string \<times> pyval) list"

text \<open>Truth value of an object, as \<open>not x\<close> and \<open>if x\<close> test it.\<close>

fun truthy :: "pyval \<Rightarrow> bool" where
  "truthy PNone = False"
| "truthy (PBool b) = b"
| "truthy (PInt n) = (n \<noteq> 0)"
| "truthy (PStr s) = (s \<noteq> [])"
| "truthy (PList xs) = (xs \<noteq> [])"
| "truthy (PDict d) = (d \<noteq> [])"

text \<open>\<open>d[k] = v\<close> on a dict: an existing key keeps its position, a new key goes last.\<close>

fun dict_set :: "(string \<times> 'v) list \<Rightarrow> string \<Rightarrow> 'v \<Rightarrow> (string \<times> 'v) list" where
  "dict_set [] k v = [(k, v)]"
| "dict_set ((k', v') # d) k v = (if k' = k then (k, v) # d else (k', v') # dict_set d k v)"

text \<open>\<open>d.get(k, default)\<close>.\<close>

definition dict_get :: "(string \<times> 'v) list \<Rightarrow> string \<Rightarrow> 'v \<Rightarrow> 'v" where
  "dict_get d k dflt = (case map_of d k of None \<Rightarrow> dflt | Some v \<Rightarrow> v)"

text \<open>\<open>str(n)\<close> for an integer: decimal digits, a leading minus sign when negative.\<close>

definition digit_char :: "nat \<Rightarrow> char" where
  "digit_char n = ''0123456789abcdef'' ! n"

fun digits :: "nat \<Rightarrow> string" where
  "digits n = (if n < 10 then [digit_char n] else digits (n div 10) @ [digit_char (n mod 10)])"

definition str_int :: "int \<Rightarrow> string" where
  "str_int i = (if i < 0 then CHR ''-'' # digits (nat (- i)) else digits (nat i))"

text \<open>\<open>sep.join(parts)\<close>.\<close>

fun join :: "string \<Rightarrow> string list \<Rightarrow> string" where
  "join sep [] = []"
| "join sep [x] = x"
| "join sep (x # y # ys) = x @ sep @ join sep (y # ys)"

text \<open>\<open>needle in haystack\<close> on strings: a contiguous occurrence.\<close>

fun contains :: "string \<Rightarrow> string \<Rightarrow> bool" where
  "contains needle [] = (needle = [])"
| "contains needle (c # cs) =
     (take (length needle) (c # cs) = needle \<or> contains needle cs)"

section \<open>Exceptions and results\<close>

datatype exn =
    RuntimeError string
  | TypeError
  | ValueError
  | KeyError string
  | AttributeError
  | NameError string
  | NullResource string
  | DeprecatedMethod string
  | NotFound
  | LibraryError string

text \<open>
  What \<open>APIClient._request\<close> returns: an \<open>ActionResponse(success, message)\<close> object,
  or a plain Python value (the decoded JSON payload, or the body text as a \<open>str\<close>).
\<close>

datatype ret =
    ActionResponse bool "string option"
  | Val pyval

text \<open>A comprehension or loop body that may raise: the first exception ends it.\<close>

fun map_all :: "('a \<Rightarrow> exn + 'b) \<Rightarrow> 'a list \<Rightarrow> exn + 'b list" where
  "map_all f [] = Inr []"
| "map_all f (x # xs) =
     (case f x of
        Inl e \<Rightarrow> Inl e
      | Inr y \<Rightarrow> (case map_all f xs of Inl e \<Rightarrow> Inl e | Inr ys \<Rightarrow> Inr (y # ys)))"

section \<open>HTTP\<close>

text \<open>
  A URL as \<open>URL.build\<close> makes it. The query is held as its encoded components, in
  order: each is a key and a value, both already percent-encoded. The query string of the
  final URL joins them as \<open>key=value\<close> with \<open>&\<close>.
\<close>

record url =
  url_scheme :: string
  url_host :: string
  url_port :: "int option"
  url_path :: string
  url_query :: "(string \<times> string) list"

definition query_string :: "url \<Rightarrow> string" where
  "query_string u = join ''&'' (map (\<lambda>kv. fst kv @ ''='' @ snd kv) (url_query u))"

text \<open>
  The URL library's encoding of one part of a query: the text goes to UTF-8 (a character
  is a code point below 256, so two bytes from 128 on), a space becomes \<open>+\<close>, the
  unreserved characters and \<open>!$'()*,?/:@\<close> stay, and every other byte becomes
  \<open>%XX\<close> in upper-case hexadecimal.
\<close>

definition query_safe :: "char \<Rightarrow> bool" where
  "query_safe c =
     (c \<in> set (''abcdefghijklmnopqrstuvwxyzABCDEFGHIJKLMNOPQRSTUVWXYZ0123456789''
                @ ''-._~'' @ ''!$()*,'' @ [CHR 0x27] @ ''?/:@''))"

definition upper_hex :: "nat \<Rightarrow> char" where
  "upper_hex n = ''0123456789ABCDEF'' ! n"

definition pct :: "nat \<Rightarrow> string" where
  "pct b = [CHR ''%'', upper_hex (b div 16), upper_hex (b mod 16)]"

definition utf8_bytes :: "char \<Rightarrow> nat list" where
  "utf8_bytes c =
     (let n = (of_char c :: nat)
      in if n < 128 then [n] else [192 + n div 64, 128 + n mod 64])"

definition quote_char :: "char \<Rightarrow> string" where
  "quote_char c =
     (if c = CHR '' '' then ''+''
      else if query_safe c then [c]
      else concat (map pct (utf8_bytes c)))"

definition quote :: "string \<Rightarrow> string" where
  "quote s = concat (map quote_char s)"

text \<open>
  The text of one query value: a string as it is, an integer in decimal; a boolean,
  \<open>None\<close> or a dict raises \<open>TypeError\<close>. A list gives one component per item, each
  item a string or an integer.
\<close>

definition query_var :: "pyval \<Rightarrow> exn + string" where
  "query_var v =
     (case v of
        PStr s \<Rightarrow> Inr s
      | PInt n \<Rightarrow> Inr (str_int n)
      | _ \<Rightarrow> Inl TypeError)"

definition query_pair :: "string \<Rightarrow> pyval \<Rightarrow> exn + string \<times> string" where
  "query_pair key v =
     (case query_var v of Inl e \<Rightarrow> Inl e | Inr t \<Rightarrow> Inr (quote key, quote t))"

definition query_item :: "string \<times> pyval \<Rightarrow> exn + (string \<times> string) list" where
  "query_item kv =
     (case snd kv of
        PList vs \<Rightarrow> map_all (query_pair (fst kv)) vs
      | v \<Rightarrow> (case query_pair (fst kv) v of Inl e \<Rightarrow> Inl e | Inr p \<Rightarrow> Inr [p]))"

definition query_seq_pairs :: "(string \<times> pyval) list \<Rightarrow> exn + (string \<times> string) list" where
  "query_seq_pairs query =
     (case map_all query_item query of Inl e \<Rightarrow> Inl e | Inr pairs \<Rightarrow> Inr (concat pairs))"

text \<open>
  \<open>URL.build(scheme="http", host=..., port=..., path=..., query=...)\<close>: a port without
  a host raises \<open>ValueError\<close>, a host of \<open>None\<close> raises \<open>TypeError\<close>, and so does a
  query value that has no text.
\<close>

definition url_build ::
  "string option \<Rightarrow> int option \<Rightarrow> string \<Rightarrow> (string \<times> pyval) list \<Rightarrow> exn + url"
where
  "url_build host_arg port_arg path query =
     (if (\<exists>p. port_arg = Some p \<and> p \<noteq> 0) \<and> (host_arg = None \<or> host_arg = Some [])
      then Inl ValueError
      else case host_arg of
             None \<Rightarrow> Inl TypeError
           | Some h \<Rightarrow>
               (case query_seq_pairs query of
                  Inl e \<Rightarrow> Inl e
                | Inr pairs \<Rightarrow>
                    Inr \<lparr>url_scheme = ''http'', url_host = h, url_port = port_arg,
                         url_path = path, url_query = pairs\<rparr>))"

text \<open>A header value: a literal, or the f-string \<open>Bearer {token}\<close> of a token.\<close>

datatype header_value = Literal string | Bearer pyval

text \<open>One call of \<open>session.request(method, url, json=data, headers=headers, ssl=True)\<close>.\<close>

record http_call =
  call_session :: nat
  call_method :: string
  call_url :: url
  call_json :: pyval
  call_headers :: "(string \<times> header_value) list"
  call_ssl :: bool

text \<open>
  The response object, by what the client reads of it: the status, the headers, the
  raw body decoded as UTF-8 (\<open>(await response.read()).decode("utf8")\<close>),
  \<open>await response.json(content_type="application/json")\<close> and
  \<open>await response.text()\<close>. Each decoder may raise.
\<close>

record response =
  status :: int
  headers :: "(string \<times> string) list"
  body_utf8 :: "exn + string"
  body_json :: "exn + pyval"
  body_text :: "exn + string"

datatype transport = Timeout | ClientError | Response response

text \<open>
  The network: given the calls made so far and the call being made, the time the call
  takes (microseconds) and how it ends.
\<close>

type_synonym network = "http_call list \<Rightarrow> http_call \<Rightarrow> int \<times> transport"

text \<open>Header names are case-insensitive (ASCII letters); \<open>headers.get(name, default)\<close>.\<close>

definition lower_char :: "char \<Rightarrow> char" where
  "lower_char c =
     (case map_of (zip ''ABCDEFGHIJKLMNOPQRSTUVWXYZ'' ''abcdefghijklmnopqrstuvwxyz'') c of
        None \<Rightarrow> c | Some l \<Rightarrow> l)"

definition headers_get :: "(string \<times> string) list \<Rightarrow> string \<Rightarrow> string \<Rightarrow> string" where
  "headers_get hs name dflt =
     (case map_of (map (\<lambda>(k, v). (map lower_char k, v)) hs) (map lower_char name) of
        None \<Rightarrow> dflt | Some v \<Rightarrow> v)"

section \<open>The API client (api/client.py)\<close>

record client =
  host :: "string option"
  port :: "int option"
  username :: pyval
  password :: pyval
  token :: pyval
  token_expiry :: "int option"
  session :: "nat option"
  close_session :: bool
  env_id :: int

text \<open>
  The world outside the client object: the clock (microseconds), the HTTP sessions
  created so far (a session handle is an index; the flag says whether it is closed),
  and the calls made on them, oldest first.
\<close>

record world =
  clock :: int
  closed :: "bool list"
  log :: "http_call list"

text \<open>
  \<open>APIClient.__init__\<close>. The \<open>session\<close> argument is accepted and not read:
  \<open>self._session\<close> is set to \<open>None\<close>, so the test that follows always creates a
  session.
\<close>

definition init ::
  "world \<Rightarrow> string option \<Rightarrow> int option \<Rightarrow> int \<Rightarrow> pyval \<Rightarrow> pyval \<Rightarrow> nat option \<Rightarrow> client \<times> world"
where
  "init w host_arg port_arg env_id_arg username_arg password_arg session_arg =
     (let c = \<lparr>host = host_arg, port = port_arg, username = username_arg,
                password = password_arg, token = PNone, token_expiry = None,
                session = None, close_session = False, env_id = env_id_arg\<rparr>
      in if session c = None
         then (c\<lparr>session := Some (length (closed w)), close_session := True\<rparr>,
               w\<lparr>closed := closed w @ [False]\<rparr>)
         else (c, w))"

text \<open>The dict comprehension that drops the \<open>None\<close> query items.\<close>

definition drop_none :: "(string \<times> pyval) list \<Rightarrow> (string \<times> pyval) list" where
  "drop_none query =
     foldl (\<lambda>d (key, v). if v \<noteq> PNone then dict_set d key v else d) [] query"

text \<open>The first part of \<open>_request\<close>: path, URL and headers.\<close>

definition request_path :: "client \<Rightarrow> bool \<Rightarrow> string \<Rightarrow> string" where
  "request_path c abs_path path =
     (if abs_path then ''/api'' @ path else ''/api/endpoints/1/docker'' @ path)"

definition request_url ::
  "client \<Rightarrow> string \<Rightarrow> bool \<Rightarrow> (string \<times> pyval) list \<Rightarrow> exn + url"
where
  "request_url c path abs_path query =
     url_build (host c) (port c) (request_path c abs_path path) (drop_none query)"

definition request_headers :: "pyval \<Rightarrow> (string \<times> header_value) list" where
  "request_headers tok =
     (let hs = [(''Accept'', Literal ''application/json'')]
      in if tok \<noteq> PNone then dict_set hs ''Authorization'' (Bearer tok) else hs)"

text \<open>The last part of \<open>_request\<close>: what a response becomes.\<close>

definition classify :: "response \<Rightarrow> exn + ret" where
  "classify r =
     (let content_type = headers_get (headers r) ''Content-Type'' ''''
      in if status r div 100 \<in> {4, 5} then
           (case body_utf8 r of
              Inl e \<Rightarrow> Inl e
            | Inr contents \<Rightarrow> Inr (ActionResponse False (Some contents)))
         else if status r = 204 then Inr (ActionResponse True None)
         else if contains ''application/json'' content_type then
           (case body_json r of Inl e \<Rightarrow> Inl e | Inr j \<Rightarrow> Inr (Val j))
         else
           (case body_text r of Inl e \<Rightarrow> Inl e | Inr t \<Rightarrow> Inr (Val (PStr t))))"

text \<open>The call that \<open>_request\<close> hands to \<open>self._session.request\<close>.\<close>

definition request_call :: "nat \<Rightarrow> string \<Rightarrow> url \<Rightarrow> pyval \<Rightarrow> pyval \<Rightarrow> http_call" where
  "request_call sid meth u data tok =
     \<lparr>call_session = sid, call_method = meth, call_url = u,
      call_json = data, call_headers = request_headers tok, call_ssl = True\<rparr>"

text \<open>
  A session can carry a call when it is one of the world's sessions and has not been
  closed; \<open>session.request\<close> on a closed session raises \<open>RuntimeError\<close>, which
  neither \<open>except\<close> clause of \<open>_request\<close> catches.
\<close>

definition session_open :: "world \<Rightarrow> nat \<Rightarrow> bool" where
  "session_open w sid = (sid < length (closed w) \<and> \<not> closed w ! sid)"

text \<open>
  \<open>APIClient._request(path, abs_path, query, data, method, token)\<close>. Building the URL
  may raise, before anything is sent. A call that is made is logged, and the clock moves
  on by the time it took, however it ends.
\<close>

definition request ::
  "network \<Rightarrow> client \<Rightarrow> world \<Rightarrow> string \<Rightarrow> bool \<Rightarrow> (string \<times> pyval) list \<Rightarrow> pyval \<Rightarrow> string \<Rightarrow> pyval
     \<Rightarrow> (exn + ret) \<times> world"
where
  "request net c w path abs_path query data meth tok =
     (case request_url c path abs_path query of
        Inl e \<Rightarrow> (Inl e, w)
      | Inr u \<Rightarrow>
          (case session c of
             None \<Rightarrow> (Inl AttributeError, w)
           | Some sid \<Rightarrow>
               if \<not> session_open w sid then (Inl (RuntimeError ''Session is closed''), w)
               else
                 (let call = request_call sid meth u data tok;
                      (dt, tr) = net (log w) call;
                      w' = w\<lparr>clock := clock w + dt, log := log w @ [call]\<rparr>
                  in case tr of
                       Timeout \<Rightarrow>
                         (Inl (RuntimeError ''Timeout occurred while connecting to Docker''),
                          w')
                     | ClientError \<Rightarrow>
                         (Inl (RuntimeError ''Error occurred while communicating with Docker''),
                          w')
                     | Response r \<Rightarrow> (classify r, w'))))"

text \<open>\<open>APIClient.close\<close>: a session object is truthy.\<close>

definition close :: "client \<Rightarrow> world \<Rightarrow> world" where
  "close c w =
     (case session c of
        Some sid \<Rightarrow> if close_session c then w\<lparr>closed := (closed w)[sid := True]\<rparr> else w
      | None \<Rightarrow> w)"

text \<open>
  \<open>res["jwt"]\<close> and \<open>x['Id']\<close>: only a dict can be subscripted by a string; a
  missing key raises \<open>KeyError\<close>, any other object raises \<open>TypeError\<close>.
\<close>

definition py_item :: "pyval \<Rightarrow> string \<Rightarrow> exn + pyval" where
  "py_item v key =
     (case v of
        PDict d \<Rightarrow> (case map_of d key of None \<Rightarrow> Inl (KeyError key) | Some x \<Rightarrow> Inr x)
      | _ \<Rightarrow> Inl TypeError)"

definition subscript :: "ret \<Rightarrow> string \<Rightarrow> exn + pyval" where
  "subscript res key =
     (case res of ActionResponse _ _ \<Rightarrow> Inl TypeError | Val v \<Rightarrow> py_item v key)"

text \<open>\<open>timedelta(hours=7, minutes=59)\<close>, in microseconds.\<close>

definition token_lifetime :: int where
  "token_lifetime = (7 * 60 + 59) * 60 * 1000000"

text \<open>
  \<open>APIClient._refresh_token\<close>. \<open>datetime.now()\<close> is read twice: for the test, and
  again after the exchange has returned. Comparing with an expiry of \<open>None\<close> raises
  \<open>TypeError\<close>. The \<open>print\<close> is not modelled.
\<close>

definition refresh_token :: "network \<Rightarrow> client \<Rightarrow> world \<Rightarrow> (exn + unit) \<times> client \<times> world" where
  "refresh_token net c w =
     (case (if token c = PNone then Inr True
            else case token_expiry c of
                   None \<Rightarrow> Inl TypeError
                 | Some expiry \<Rightarrow> Inr (clock w \<ge> expiry)) of
        Inl e \<Rightarrow> (Inl e, c, w)
      | Inr False \<Rightarrow> (Inr (), c, w)
      | Inr True \<Rightarrow>
          (let data = PDict [(''username'', username c), (''password'', password c)]
           in case request net c w ''/auth'' True [] data ''POST'' PNone of
                (Inl e, w') \<Rightarrow> (Inl e, c, w')
              | (Inr res, w') \<Rightarrow>
                  (case subscript res ''jwt'' of
                     Inl e \<Rightarrow> (Inl e, c, w')
                   | Inr jwt \<Rightarrow>
                       (Inr (),
                        c\<lparr>token := jwt, token_expiry := Some (clock w' + token_lifetime)\<rparr>,
                        w'))))"

text \<open>The decorator \<open>auth\<close> of utils/decorators.py: refresh, then call with the token.\<close>

definition auth ::
  "network \<Rightarrow> (client \<Rightarrow> world \<Rightarrow> pyval \<Rightarrow> (exn + 'a) \<times> client \<times> world)
     \<Rightarrow> client \<Rightarrow> world \<Rightarrow> (exn + 'a) \<times> client \<times> world"
where
  "auth net f c w =
     (case refresh_token net c w of
        (Inl e, c', w') \<Rightarrow> (Inl e, c', w')
      | (Inr _, c', w') \<Rightarrow> f c' w' (token c'))"

text \<open>\<open>APIClient._get\<close> and \<open>APIClient._post\<close>, both decorated with \<open>auth\<close>.\<close>

definition get ::
  "network \<Rightarrow> client \<Rightarrow> world \<Rightarrow> string \<Rightarrow> (string \<times> pyval) list \<Rightarrow> (exn + ret) \<times> client \<times> world"
where
  "get net c w path query =
     auth net
       (\<lambda>c' w' tok. case request net c' w' path False query PNone ''GET'' tok of
                       (r, w'') \<Rightarrow> (r, c', w''))
       c w"

definition post ::
  "network \<Rightarrow> client \<Rightarrow> world \<Rightarrow> string \<Rightarrow> pyval \<Rightarrow> (string \<times> pyval) list
     \<Rightarrow> (exn + ret) \<times> client \<times> world"
where
  "post net c w path data query =
     auth net
       (\<lambda>c' w' tok. case request net c' w' path False query data ''POST'' tok of
                       (r, w'') \<Rightarrow> (r, c', w''))
       c w"

text \<open>
  A client that can send: it has an open session, and a host that the URL library takes
  with its port.
\<close>

definition working :: "client \<Rightarrow> world \<Rightarrow> nat \<Rightarrow> bool" where
  "working c w sid =
     (session c = Some sid \<and> session_open w sid
      \<and> (\<exists>h. host c = Some h \<and> (h = [] \<and> (port c = None \<or> port c = Some 0) \<or> h \<noteq> [])))"

definition host_name :: "client \<Rightarrow> string" where
  "host_name c = (case host c of Some h \<Rightarrow> h | None \<Rightarrow> [])"

text \<open>
  The credential exchange as the spec words it: an unauthenticated \<open>POST /api/auth\<close>
  whose JSON body holds the username and the password, on the client's session.
\<close>

definition exchange_call :: "client \<Rightarrow> nat \<Rightarrow> http_call" where
  "exchange_call c sid =
     \<lparr>call_session = sid, call_method = ''POST'',
      call_url = \<lparr>url_scheme = ''http'', url_host = host_name c, url_port = port c,
                  url_path = ''/api/auth'', url_query = []\<rparr>,
      call_json = PDict [(''username'', username c), (''password'', password c)],
      call_headers = [(''Accept'', Literal ''application/json'')],
      call_ssl = True\<rparr>"

section \<open>Text of Python values\<close>

definition hex2 :: "nat \<Rightarrow> string" where
  "hex2 n = [digit_char (n div 16), digit_char (n mod 16)]"

text \<open>
  \<open>repr\<close> of a string whose characters are code points below 256: single quotes unless
  the string holds a single quote and no double quote; the quote and the backslash are
  escaped, tab, newline and return by letter, every other non-printable character as
  \<open>\xNN\<close>.
\<close>

definition repr_char :: "char \<Rightarrow> char \<Rightarrow> string" where
  "repr_char q c =
     (let n = (of_char c :: nat)
      in if c = q \<or> c = CHR 0x5C then [CHR 0x5C, c]
         else if c = CHR 0x09 then [CHR 0x5C, CHR ''t'']
         else if c = CHR 0x0A then [CHR 0x5C, CHR ''n'']
         else if c = CHR 0x0D then [CHR 0x5C, CHR ''r'']
         else if n < 32 \<or> n = 127 \<or> (128 \<le> n \<and> n \<le> 160) \<or> n = 173
           then [CHR 0x5C, CHR ''x''] @ hex2 n
         else [c])"

definition repr_str :: "string \<Rightarrow> string" where
  "repr_str s =
     (let q = (if CHR 0x27 \<in> set s \<and> CHR 0x22 \<notin> set s then CHR 0x22 else CHR 0x27)
      in [q] @ concat (map (repr_char q) s) @ [q])"

fun py_repr :: "pyval \<Rightarrow> string" where
  "py_repr PNone = ''None''"
| "py_repr (PBool b) = (if b then ''True'' else ''False'')"
| "py_repr (PInt n) = str_int n"
| "py_repr (PStr s) = repr_str s"
| "py_repr (PList xs) = ''['' @ join '', '' (map py_repr xs) @ '']''"
| "py_repr (PDict d) =
     ''{'' @ join '', '' (map (\<lambda>kv. repr_str (fst kv) @ '': '' @ py_repr (snd kv)) d) @ ''}''"

text \<open>\<open>str(x)\<close>, which is also what an f-string puts for \<open>{x}\<close>.\<close>

definition py_str :: "pyval \<Rightarrow> string" where
  "py_str v = (case v of PStr s \<Rightarrow> s | _ \<Rightarrow> py_repr v)"

section \<open>Filters (utils/utils.py)\<close>

text \<open>
  A filter value is one item or a list of items; an item is a boolean, an integer or a
  string, as the docstring of \<open>containers\<close> lists them.
\<close>

datatype atom = ABool bool | AInt int | AStr string

datatype filter_value = One atom | Many "atom list"

text \<open>\<open>str(item) if not isinstance(item, str) else item\<close>.\<close>

definition str_item :: "atom \<Rightarrow> string" where
  "str_item a =
     (case a of
        AStr s \<Rightarrow> s
      | ABool b \<Rightarrow> (if b then ''True'' else ''False'')
      | AInt n \<Rightarrow> str_int n)"

text \<open>The body of the loop of \<open>convert_filters\<close>: what one value becomes.\<close>

definition filter_strings :: "filter_value \<Rightarrow> string list" where
  "filter_strings v =
     (let v1 = (case v of
                  One (ABool b) \<Rightarrow> One (AStr (if b then ''true'' else ''false''))
                | _ \<Rightarrow> v);
          v2 = (case v1 of Many items \<Rightarrow> items | One a \<Rightarrow> [a])
      in map str_item v2)"

definition filters_result :: "(string \<times> filter_value) list \<Rightarrow> (string \<times> string list) list" where
  "filters_result filters =
     foldl (\<lambda>result (k, v). dict_set result k (filter_strings v)) [] filters"

text \<open>
  \<open>json.dumps\<close> of a dict from strings to lists of strings, with its defaults: the
  separators \<open>", "\<close> and \<open>": "\<close>, and every character outside the printable ASCII
  range escaped.
\<close>

definition json_char :: "char \<Rightarrow> string" where
  "json_char c =
     (let n = (of_char c :: nat)
      in if c = CHR 0x5C then [CHR 0x5C, CHR 0x5C]
         else if c = CHR 0x22 then [CHR 0x5C, CHR 0x22]
         else if c = CHR 0x08 then [CHR 0x5C, CHR ''b'']
         else if c = CHR 0x0C then [CHR 0x5C, CHR ''f'']
         else if c = CHR 0x0A then [CHR 0x5C, CHR ''n'']
         else if c = CHR 0x0D then [CHR 0x5C, CHR ''r'']
         else if c = CHR 0x09 then [CHR 0x5C, CHR ''t'']
         else if 32 \<le> n \<and> n \<le> 126 then [c]
         else [CHR 0x5C, CHR ''u'', CHR ''0'', CHR ''0''] @ hex2 n)"

definition json_string :: "string \<Rightarrow> string" where
  "json_string s = [CHR 0x22] @ concat (map json_char s) @ [CHR 0x22]"

definition json_list :: "string list \<Rightarrow> string" where
  "json_list xs = ''['' @ join '', '' (map json_string xs) @ '']''"

definition json_dumps :: "(string \<times> string list) list \<Rightarrow> string" where
  "json_dumps d =
     ''{'' @ join '', '' (map (\<lambda>(k, v). json_string k @ '': '' @ json_list v) d) @ ''}''"

definition convert_filters :: "(string \<times> filter_value) list \<Rightarrow> string" where
  "convert_filters filters = json_dumps (filters_result filters)"

section \<open>Resource identifiers (utils/decorators.py)\<close>

text \<open>
  The names bound at module level in utils/decorators.py (its only import is
  \<open>from . import utils\<close>) and in api/container.py (\<open>datetime\<close> and \<open>utils\<close>).
  Both modules raise through the name \<open>errors\<close>; evaluating a name that is bound
  neither in the module nor among the builtins raises \<open>NameError\<close> instead.
\<close>

definition decorators_globals :: "string list" where
  "decorators_globals = [''utils'', ''auth'', ''check_resource'', ''minimum_version'']"

definition container_globals :: "string list" where
  "container_globals = [''datetime'', ''utils'', ''ContainerApiMixin'']"

definition raise_errors :: "string list \<Rightarrow> exn \<Rightarrow> exn" where
  "raise_errors globals e = (if ''errors'' \<in> set globals then e else NameError ''errors'')"

text \<open>
  \<open>check_resource(resource_name)\<close>, around a function \<open>f\<close>. Arguments after the
  identifier are modelled as keyword arguments.
\<close>

definition check_resource ::
  "string \<Rightarrow> (pyval \<Rightarrow> (string \<times> pyval) list \<Rightarrow> 's \<Rightarrow> (exn + 'a) \<times> 's)
     \<Rightarrow> pyval \<Rightarrow> (string \<times> pyval) list \<Rightarrow> 's \<Rightarrow> (exn + 'a) \<times> 's"
where
  "check_resource resource_name f resource_id kwargs s =
     (let (rid, kw) =
            (if resource_id = PNone \<and> truthy (dict_get kwargs resource_name PNone)
             then (dict_get kwargs resource_name PNone,
                   filter (\<lambda>kv. fst kv \<noteq> resource_name) kwargs)
             else (resource_id, kwargs));
          rid' = (case rid of
                    PDict d \<Rightarrow> dict_get d ''Id'' (dict_get d ''ID'' PNone)
                  | _ \<Rightarrow> rid)
      in if \<not> truthy rid'
         then (Inl (raise_errors decorators_globals
                      (NullResource ''Resource ID was not provided'')), s)
         else f rid' kw s)"

section \<open>Container operations (api/container.py)\<close>

text \<open>A keyword argument the function does not declare raises \<open>TypeError\<close>.\<close>

definition accepts :: "string list \<Rightarrow> (string \<times> pyval) list \<Rightarrow> bool" where
  "accepts names kwargs = list_all (\<lambda>kv. fst kv \<in> set names) kwargs"

text \<open>Iterating a value: a list by items, a string by characters, a dict by keys.\<close>

definition py_iter :: "ret \<Rightarrow> exn + pyval list" where
  "py_iter res =
     (case res of
        Val (PList xs) \<Rightarrow> Inr xs
      | Val (PStr s) \<Rightarrow> Inr (map (\<lambda>ch. PStr [ch]) s)
      | Val (PDict d) \<Rightarrow> Inr (map (\<lambda>kv. PStr (fst kv)) d)
      | _ \<Rightarrow> Inl TypeError)"

text \<open>\<open>{'Id': x['Id']}\<close> and \<open>x['Id'] = x['Id'][:12]\<close> (a string or a list can be sliced).\<close>

definition only_id :: "pyval \<Rightarrow> exn + pyval" where
  "only_id x = (case py_item x ''Id'' of Inl e \<Rightarrow> Inl e | Inr i \<Rightarrow> Inr (PDict [(''Id'', i)]))"

definition trunc_id :: "pyval \<Rightarrow> exn + pyval" where
  "trunc_id x =
     (case py_item x ''Id'' of
        Inl e \<Rightarrow> Inl e
      | Inr (PStr s) \<Rightarrow> (case x of PDict d \<Rightarrow> Inr (PDict (dict_set d ''Id'' (PStr (take 12 s))))
                                  | _ \<Rightarrow> Inl TypeError)
      | Inr (PList xs) \<Rightarrow> (case x of PDict d \<Rightarrow> Inr (PDict (dict_set d ''Id'' (PList (take 12 xs))))
                                   | _ \<Rightarrow> Inl TypeError)
      | Inr _ \<Rightarrow> Inl TypeError)"

text \<open>\<open>ContainerApiMixin.containers\<close>.\<close>

definition containers ::
  "network \<Rightarrow> bool \<Rightarrow> bool \<Rightarrow> bool \<Rightarrow> bool \<Rightarrow> pyval \<Rightarrow> pyval \<Rightarrow> int \<Rightarrow> bool
     \<Rightarrow> (string \<times> filter_value) list option \<Rightarrow> client \<times> world \<Rightarrow> (exn + ret) \<times> client \<times> world"
where
  "containers net quiet all trunc latest since before limit size_arg filters cw =
     (let params = [(''limit'', PInt (if latest then 1 else limit)),
                    (''all'', PInt (if all then 1 else 0)),
                    (''size'', PInt (if size_arg then 1 else 0)),
                    (''trunc_cmd'', PInt (if trunc then 1 else 0)),
                    (''since'', since),
                    (''before'', before)];
          params' = (case filters of
                       None \<Rightarrow> params
                     | Some fs \<Rightarrow> if fs \<noteq> []
                                 then dict_set params ''filters'' (PStr (convert_filters fs))
                                 else params)
      in case get net (fst cw) (snd cw) ''/containers/json'' params' of
           (Inl e, cw') \<Rightarrow> (Inl e, cw')
         | (Inr res, cw') \<Rightarrow>
             if quiet then
               (case py_iter res of
                  Inl e \<Rightarrow> (Inl e, cw')
                | Inr xs \<Rightarrow> (case map_all only_id xs of
                              Inl e \<Rightarrow> (Inl e, cw')
                            | Inr ys \<Rightarrow> (Inr (Val (PList ys)), cw')))
             else if trunc then
               (case py_iter res of
                  Inl e \<Rightarrow> (Inl e, cw')
                | Inr xs \<Rightarrow> (case map_all trunc_id xs of
                              Inl e \<Rightarrow> (Inl e, cw')
                            | Inr ys \<Rightarrow> (case res of
                                           Val (PList _) \<Rightarrow> (Inr (Val (PList ys)), cw')
                                         | _ \<Rightarrow> (Inr res, cw'))))
             else (Inr res, cw'))"

text \<open>The eight operations on one container, each decorated with \<open>check_resource\<close>.\<close>

definition inspect_container ::
  "network \<Rightarrow> pyval \<Rightarrow> (string \<times> pyval) list \<Rightarrow> client \<times> world \<Rightarrow> (exn + ret) \<times> client \<times> world"
where
  "inspect_container net =
     check_resource ''container''
       (\<lambda>container kwargs cw.
          if \<not> accepts [] kwargs then (Inl TypeError, cw)
          else get net (fst cw) (snd cw) (''/containers/'' @ py_str container @ ''/json'') [])"

text \<open>The query of \<open>kill\<close>: \<open>int(signal)\<close> of a list, a dict or \<open>None\<close> raises.\<close>

definition kill_params :: "pyval \<Rightarrow> exn + (string \<times> pyval) list" where
  "kill_params signal =
     (if signal \<noteq> PNone then
        (case (case signal of
                 PStr s \<Rightarrow> Inr signal
               | PInt n \<Rightarrow> Inr (PInt n)
               | PBool b \<Rightarrow> Inr (PInt (if b then 1 else 0))
               | _ \<Rightarrow> Inl TypeError) of
           Inl e \<Rightarrow> Inl e
         | Inr signal' \<Rightarrow> Inr (dict_set [] ''signal'' signal'))
      else Inr [])"

definition kill ::
  "network \<Rightarrow> pyval \<Rightarrow> (string \<times> pyval) list \<Rightarrow> client \<times> world \<Rightarrow> (exn + ret) \<times> client \<times> world"
where
  "kill net =
     check_resource ''container''
       (\<lambda>container kwargs cw.
          if \<not> accepts [''signal''] kwargs then (Inl TypeError, cw)
          else case kill_params (dict_get kwargs ''signal'' PNone) of
                 Inl e \<Rightarrow> (Inl e, cw)
               | Inr params \<Rightarrow>
                   post net (fst cw) (snd cw)
                     (''/containers/'' @ py_str container @ ''/kill'') PNone params)"

definition pause ::
  "network \<Rightarrow> pyval \<Rightarrow> (string \<times> pyval) list \<Rightarrow> client \<times> world \<Rightarrow> (exn + ret) \<times> client \<times> world"
where
  "pause net =
     check_resource ''container''
       (\<lambda>container kwargs cw.
          if \<not> accepts [] kwargs then (Inl TypeError, cw)
          else post net (fst cw) (snd cw)
                 (''/containers/'' @ py_str container @ ''/pause'') PNone [])"

definition restart ::
  "network \<Rightarrow> pyval \<Rightarrow> (string \<times> pyval) list \<Rightarrow> client \<times> world \<Rightarrow> (exn + ret) \<times> client \<times> world"
where
  "restart net =
     check_resource ''container''
       (\<lambda>container kwargs cw.
          if \<not> accepts [''timeout''] kwargs then (Inl TypeError, cw)
          else post net (fst cw) (snd cw)
                 (''/containers/'' @ py_str container @ ''/restart'') PNone
                 [(''t'', dict_get kwargs ''timeout'' (PInt 10))])"

definition start ::
  "network \<Rightarrow> pyval \<Rightarrow> (string \<times> pyval) list \<Rightarrow> client \<times> world \<Rightarrow> (exn + ret) \<times> client \<times> world"
where
  "start net =
     check_resource ''container''
       (\<lambda>container kwargs cw.
          if ''container'' \<in> fst ` set kwargs then (Inl TypeError, cw)
          else if kwargs \<noteq> []
          then (Inl (raise_errors container_globals
                       (DeprecatedMethod ''Providing configuration in the start() method is no longer supported'')), cw)
          else post net (fst cw) (snd cw)
                 (''/containers/'' @ py_str container @ ''/start'') PNone [])"

definition stats ::
  "network \<Rightarrow> pyval \<Rightarrow> (string \<times> pyval) list \<Rightarrow> client \<times> world \<Rightarrow> (exn + ret) \<times> client \<times> world"
where
  "stats net =
     check_resource ''container''
       (\<lambda>container kwargs cw.
          if \<not> accepts [] kwargs then (Inl TypeError, cw)
          else get net (fst cw) (snd cw)
                 (''/containers/'' @ py_str container @ ''/stats'')
                 [(''stream'', PStr ''false'')])"

definition stop ::
  "network \<Rightarrow> pyval \<Rightarrow> (string \<times> pyval) list \<Rightarrow> client \<times> world \<Rightarrow> (exn + ret) \<times> client \<times> world"
where
  "stop net =
     check_resource ''container''
       (\<lambda>container kwargs cw.
          if \<not> accepts [''timeout''] kwargs then (Inl TypeError, cw)
          else post net (fst cw) (snd cw)
                 (''/containers/'' @ py_str container @ ''/stop'') PNone
                 [(''t'', dict_get kwargs ''timeout'' (PInt 10))])"

definition top_container ::
  "network \<Rightarrow> pyval \<Rightarrow> (string \<times> pyval) list \<Rightarrow> client \<times> world \<Rightarrow> (exn + ret) \<times> client \<times> world"
where
  "top_container net =
     check_resource ''container''
       (\<lambda>container kwargs cw.
          if \<not> accepts [''ps_args''] kwargs then (Inl TypeError, cw)
          else get net (fst cw) (snd cw)
                 (''/containers/'' @ py_str container @ ''/top'')
                 (if dict_get kwargs ''ps_args'' PNone \<noteq> PNone
                  then dict_set [] ''ps_args'' (dict_get kwargs ''ps_args'' PNone)
                  else []))"

section \<open>The container collection (models/containers.py)\<close>

text \<open>A \<open>Container\<close> model object, by its \<open>attrs\<close>.\<close>

datatype container = Container "(string \<times> pyval) list"

text \<open>
  Modelled from the spec: \<open>Collection.prepare_model\<close>, of models/resource.py, which is
  not among the sources. The spec has \<open>get\<close> build the entity from the attributes that
  inspect fetched, and has the collection layer derive the not-found condition from a
  server rejection (the \<open>ActionResponse\<close> of a failure) when one entity is looked up.
  For any other object the spec says nothing; the model raises there.
\<close>

definition prepare_model :: "ret \<Rightarrow> exn + container" where
  "prepare_model resp =
     (case resp of
        Val (PDict attrs) \<Rightarrow> Inr (Container attrs)
      | ActionResponse False _ \<Rightarrow> Inl NotFound
      | _ \<Rightarrow> Inl (LibraryError ''prepare_model''))"

text \<open>\<open>ContainerCollection.get\<close>.\<close>

definition collection_get ::
  "network \<Rightarrow> pyval \<Rightarrow> client \<times> world \<Rightarrow> (exn + container) \<times> client \<times> world"
where
  "collection_get net container_id cw =
     (case inspect_container net container_id [] cw of
        (Inl e, cw') \<Rightarrow> (Inl e, cw')
      | (Inr resp, cw') \<Rightarrow> (prepare_model resp, cw'))"

text \<open>
  The loop of \<open>ContainerCollection.list\<close> over the summary entries: the \<open>try\<close> covers
  \<open>r['Id']\<close> and the \<open>get\<close>; only \<open>NotFound\<close> is caught, and re-raised unless
  \<open>ignore_removed\<close>.
\<close>

fun list_loop ::
  "network \<Rightarrow> bool \<Rightarrow> pyval list \<Rightarrow> container list \<Rightarrow> client \<times> world
     \<Rightarrow> (exn + container list) \<times> client \<times> world"
where
  "list_loop net ignore_removed [] acc cw = (Inr acc, cw)"
| "list_loop net ignore_removed (r # rs) acc cw =
     (case (case py_item r ''Id'' of
              Inl e \<Rightarrow> (Inl e, cw)
            | Inr container_id \<Rightarrow> collection_get net container_id cw) of
        (Inr m, cw') \<Rightarrow> list_loop net ignore_removed rs (acc @ [m]) cw'
      | (Inl e, cw') \<Rightarrow>
          if e = NotFound \<and> ignore_removed then list_loop net ignore_removed rs acc cw'
          else (Inl e, cw'))"

text \<open>\<open>ContainerCollection.list\<close>.\<close>

definition collection_list ::
  "network \<Rightarrow> bool \<Rightarrow> pyval \<Rightarrow> (string \<times> filter_value) list option \<Rightarrow> int \<Rightarrow> pyval \<Rightarrow> bool \<Rightarrow> bool
     \<Rightarrow> client \<times> world \<Rightarrow> (exn + container list) \<times> client \<times> world"
where
  "collection_list net all before filters limit since sparse ignore_removed cw =
     (case containers net False all False False since before limit False filters cw of
        (Inl e, cw') \<Rightarrow> (Inl e, cw')
      | (Inr resp, cw') \<Rightarrow>
          (case py_iter resp of
             Inl e \<Rightarrow> (Inl e, cw')
           | Inr rs \<Rightarrow>
               if sparse then (map_all (\<lambda>r. prepare_model (Val r)) rs, cw')
               else list_loop net ignore_removed rs [] cw'))"

section \<open>A concrete server\<close>

text \<open>
  A server for the worked examples: it exchanges credentials for the token \<open>tok\<close>, lists
  the containers \<open>c1\<close> and \<open>c2\<close>, knows \<open>c1\<close> and has lost \<open>c2\<close>, times out on
  \<open>/slow\<close>, drops the connection on \<open>/down\<close>, and answers 204 to anything else. Every
  call takes a second.
\<close>

definition json_response :: "pyval \<Rightarrow> response" where
  "json_response j =
     \<lparr>status = 200, headers = [(''Content-Type'', ''application/json'')],
      body_utf8 = Inr ''(json)'', body_json = Inr j, body_text = Inr ''(json)''\<rparr>"

definition error_response :: "int \<Rightarrow> string \<Rightarrow> response" where
  "error_response st msg =
     \<lparr>status = st, headers = [(''content-type'', ''application/json'')],
      body_utf8 = Inr msg, body_json = Inl (LibraryError ''json''), body_text = Inr msg\<rparr>"

definition text_response :: "string \<Rightarrow> response" where
  "text_response t =
     \<lparr>status = 200, headers = [(''Content-Type'', ''text/plain'')],
      body_utf8 = Inr t, body_json = Inl (LibraryError ''json''), body_text = Inr t\<rparr>"

definition empty_response :: response where
  "empty_response =
     \<lparr>status = 204, headers = [], body_utf8 = Inr [], body_json = Inl (LibraryError ''json''),
      body_text = Inr []\<rparr>"

definition demo_net :: network where
  "demo_net history call =
     (let p = url_path (call_url call)
      in (1000000,
          if p = ''/api/auth'' then Response (json_response (PDict [(''jwt'', PStr ''tok'')]))
          else if p = ''/api/endpoints/1/docker/containers/json''
            then Response (json_response
                   (PList [PDict [(''Id'', PStr ''c1'')], PDict [(''Id'', PStr ''c2'')]]))
          else if p = ''/api/endpoints/1/docker/containers/c1/json''
            then Response (json_response (PDict [(''Id'', PStr ''c1''), (''Name'', PStr ''/web'')]))
          else if p = ''/api/endpoints/1/docker/containers/c2/json''
            then Response (error_response 404 ''no such container'')
          else if p = ''/api/endpoints/1/docker/version''
            then Response (text_response ''1.41'')
          else if p = ''/api/endpoints/1/docker/slow'' then Timeout
          else if p = ''/api/endpoints/1/docker/down'' then ClientError
          else Response empty_response))"

definition demo_world :: world where
  "demo_world = \<lparr>clock = 0, closed = [False], log = []\<rparr>"

definition demo_client :: "int \<Rightarrow> client" where
  "demo_client e =
     fst (init demo_world (Some ''localhost'') (Some 9000) e (PStr ''admin'') (PStr ''secret'')
            (Some 0))"

definition demo_state :: "world" where
  "demo_state =
     snd (init demo_world (Some ''localhost'') (Some 9000) 1 (PStr ''admin'') (PStr ''secret'')
            (Some 0))"

section \<open>Servers and logs\<close>

text \<open>
  What the end-to-end scenario of the spec supposes of the server: a path that is always
  answered by a response of one classification, and a credential exchange that always
  returns a JSON object holding \<open>jwt\<close>.
\<close>

definition answers :: "network \<Rightarrow> string \<Rightarrow> exn + ret \<Rightarrow> bool" where
  "answers net p x =
     (\<forall>history call. url_path (call_url call) = p \<longrightarrow>
        (\<exists>dt r. net history call = (dt, Response r) \<and> classify r = x))"

definition exchanges :: "network \<Rightarrow> bool" where
  "exchanges net =
     (\<forall>history call. url_path (call_url call) = ''/api/auth'' \<longrightarrow>
        (\<exists>dt r d jwt. net history call = (dt, Response r)
                      \<and> classify r = Inr (Val (PDict d)) \<and> map_of d ''jwt'' = Some jwt))"

text \<open>The method and path of a call, and the calls of a log that are not exchanges.\<close>

definition sent :: "http_call \<Rightarrow> string \<times> string" where
  "sent call = (call_method call, url_path (call_url call))"

definition other_calls :: "http_call list \<Rightarrow> http_call list" where
  "other_calls calls = filter (\<lambda>call. url_path (call_url call) \<noteq> ''/api/auth'') calls"

text \<open>
  A client that can make authenticated calls: it can send, and a token it holds comes
  with an expiry (the two are only ever set together).
\<close>

definition ready :: "client \<Rightarrow> world \<Rightarrow> nat \<Rightarrow> bool" where
  "ready c w sid = (working c w sid \<and> (token c \<noteq> PNone \<longrightarrow> token_expiry c \<noteq> None))"

section \<open>Properties of the query encoding\<close>

lemma upper_hex_inj:
  assumes "i < 16" and "j < 16" and "upper_hex i = upper_hex j"
  shows "i = j"
proof -
  have d: "distinct ''0123456789ABCDEF''" by simp
  have l: "length ''0123456789ABCDEF'' = 16" by simp
  from assms show ?thesis
    unfolding upper_hex_def using nth_eq_iff_index_eq [OF d, of i j] l by simp
qed

lemma pct_inj:
  assumes "a < 256" and "b < 256" and "pct a @ r = pct b @ r'"
  shows "a = b \<and> r = r'"
proof -
  from assms(3) have h: "upper_hex (a div 16) = upper_hex (b div 16)"
    and l: "upper_hex (a mod 16) = upper_hex (b mod 16)" and r: "r = r'"
    by (simp_all add: pct_def)
  from assms(1,2) have "a div 16 < 16" "b div 16 < 16" by simp_all
  then have "a div 16 = b div 16"
    using h by (intro upper_hex_inj)
  moreover have "a mod 16 = b mod 16"
    using l by (intro upper_hex_inj) simp_all
  ultimately have "a = b"
    by (metis div_mult_mod_eq)
  with r show ?thesis by simp
qed

lemma query_safe_ascii:
  assumes "query_safe c"
  shows "(of_char c :: nat) < 128" and "c \<noteq> CHR ''+''" and "c \<noteq> CHR ''%''"
    and "c \<noteq> CHR ''=''" and "c \<noteq> CHR ''&''"
  using assms by (auto simp add: query_safe_def)

lemma quote_char_inj:
  assumes "quote_char c @ r = quote_char d @ r'"
  shows "c = d \<and> r = r'"
proof -
  let ?n = "of_char c :: nat" and ?m = "of_char d :: nat"
  have n: "?n < 256" and m: "?m < 256" by simp_all
  have kinds: "\<And>x. x = CHR '' '' \<or> (x \<noteq> CHR '' '' \<and> query_safe x)
                   \<or> (x \<noteq> CHR '' '' \<and> \<not> query_safe x \<and> (of_char x :: nat) < 128)
                   \<or> (x \<noteq> CHR '' '' \<and> \<not> query_safe x \<and> 128 \<le> (of_char x :: nat))"
    by auto
  have sp: "quote_char x = ''+''" if "x = CHR '' ''" for x
    using that by (simp add: quote_char_def)
  have sf: "quote_char x = [x]" if "x \<noteq> CHR '' ''" "query_safe x" for x
    using that by (simp add: quote_char_def)
  have lo: "quote_char x = pct (of_char x)"
    if "x \<noteq> CHR '' ''" "\<not> query_safe x" "(of_char x :: nat) < 128" for x
    using that by (simp add: quote_char_def utf8_bytes_def)
  have hi: "quote_char x = pct (192 + of_char x div 64) @ pct (128 + of_char x mod 64)"
    if "x \<noteq> CHR '' ''" "\<not> query_safe x" "128 \<le> (of_char x :: nat)" for x
    using that by (simp add: quote_char_def utf8_bytes_def Let_def)
  have big: "(of_char x :: nat) < 4096" for x
    using nat_of_char_less_256 [of x] by linarith
  have b1: "192 + ?n div 64 < 256" "192 + ?m div 64 < 256"
    by (simp_all add: div_less_iff_less_mult big)
  have b2: "128 + ?n mod 64 < 256" "128 + ?m mod 64 < 256"
    by simp_all
  from kinds [of c] show ?thesis
  proof (elim disjE conjE)
    assume c: "c = CHR '' ''"
    from kinds [of d] show ?thesis
    proof (elim disjE conjE)
      assume "d = CHR '' ''"
      with c assms show ?thesis by (simp add: sp)
    next
      assume d: "d \<noteq> CHR '' ''" "query_safe d"
      with c assms query_safe_ascii(2) [OF d(2)] show ?thesis by (simp add: sp sf)
    next
      assume d: "d \<noteq> CHR '' ''" "\<not> query_safe d" "?m < 128"
      with c assms show ?thesis by (simp add: sp lo pct_def)
    next
      assume d: "d \<noteq> CHR '' ''" "\<not> query_safe d" "128 \<le> ?m"
      with c assms show ?thesis by (simp add: sp hi pct_def)
    qed
  next
    assume c: "c \<noteq> CHR '' ''" "query_safe c"
    from kinds [of d] show ?thesis
    proof (elim disjE conjE)
      assume "d = CHR '' ''"
      with c assms query_safe_ascii(2) [OF c(2)] show ?thesis by (simp add: sp sf)
    next
      assume d: "d \<noteq> CHR '' ''" "query_safe d"
      with c assms show ?thesis by (simp add: sf)
    next
      assume d: "d \<noteq> CHR '' ''" "\<not> query_safe d" "?m < 128"
      with c assms query_safe_ascii(3) [OF c(2)] show ?thesis by (simp add: sf lo pct_def)
    next
      assume d: "d \<noteq> CHR '' ''" "\<not> query_safe d" "128 \<le> ?m"
      with c assms query_safe_ascii(3) [OF c(2)] show ?thesis by (simp add: sf hi pct_def)
    qed
  next
    assume c: "c \<noteq> CHR '' ''" "\<not> query_safe c" "?n < 128"
    from kinds [of d] show ?thesis
    proof (elim disjE conjE)
      assume "d = CHR '' ''"
      with c assms show ?thesis by (simp add: sp lo pct_def)
    next
      assume d: "d \<noteq> CHR '' ''" "query_safe d"
      with c assms query_safe_ascii(3) [OF d(2)] show ?thesis by (simp add: sf lo pct_def)
    next
      assume d: "d \<noteq> CHR '' ''" "\<not> query_safe d" "?m < 128"
      with c assms have "pct ?n @ r = pct ?m @ r'" by (simp add: lo)
      from pct_inj [OF n m this] show ?thesis by simp
    next
      assume d: "d \<noteq> CHR '' ''" "\<not> query_safe d" "128 \<le> ?m"
      with c assms have "pct ?n @ r = pct (192 + ?m div 64) @ (pct (128 + ?m mod 64) @ r')"
        by (simp add: lo hi)
      from pct_inj [OF n b1(2) this] c(3) show ?thesis by simp
    qed
  next
    assume c: "c \<noteq> CHR '' ''" "\<not> query_safe c" "128 \<le> ?n"
    from kinds [of d] show ?thesis
    proof (elim disjE conjE)
      assume "d = CHR '' ''"
      with c assms show ?thesis by (simp add: sp hi pct_def)
    next
      assume d: "d \<noteq> CHR '' ''" "query_safe d"
      with c assms query_safe_ascii(3) [OF d(2)] show ?thesis by (simp add: sf hi pct_def)
    next
      assume d: "d \<noteq> CHR '' ''" "\<not> query_safe d" "?m < 128"
      with c assms have "pct (192 + ?n div 64) @ (pct (128 + ?n mod 64) @ r) = pct ?m @ r'"
        by (simp add: lo hi)
      from pct_inj [OF b1(1) m this] d(3) show ?thesis by simp
    next
      assume d: "d \<noteq> CHR '' ''" "\<not> query_safe d" "128 \<le> ?m"
      with c assms have e: "pct (192 + ?n div 64) @ (pct (128 + ?n mod 64) @ r)
                            = pct (192 + ?m div 64) @ (pct (128 + ?m mod 64) @ r')"
        by (simp add: hi)
      from pct_inj [OF b1 e] have q: "?n div 64 = ?m div 64"
        and e2: "pct (128 + ?n mod 64) @ r = pct (128 + ?m mod 64) @ r'"
        by simp_all
      from pct_inj [OF b2 e2] have "?n mod 64 = ?m mod 64" and r: "r = r'" by simp_all
      with q have "?n = ?m" by (metis div_mult_mod_eq)
      with r show ?thesis by simp
    qed
  qed
qed

lemma quote_inj: "quote s = quote t \<Longrightarrow> s = t"
proof (induction s arbitrary: t)
  case Nil
  show ?case
  proof (cases t)
    case Nil
    then show ?thesis by simp
  next
    case (Cons d t')
    have "quote_char d \<noteq> []"
      by (simp add: quote_char_def utf8_bytes_def pct_def Let_def)
    with Nil Cons show ?thesis by (simp add: quote_def)
  qed
next
  case (Cons c s)
  show ?case
  proof (cases t)
    case Nil
    have "quote_char c \<noteq> []"
      by (simp add: quote_char_def utf8_bytes_def pct_def Let_def)
    with Cons.prems Nil show ?thesis by (simp add: quote_def)
  next
    case (Cons d t')
    with Cons.prems have "quote_char c @ quote s = quote_char d @ quote t'"
      by (simp add: quote_def)
    from quote_char_inj [OF this] Cons.IH [of t'] Cons show ?thesis by simp
  qed
qed

section \<open>Properties of the request core\<close>

lemma dict_set_fresh: "k \<notin> fst ` set d \<Longrightarrow> dict_set d k v = d @ [(k, v)]"
  by (induction d k v rule: dict_set.induct) auto

lemma drop_none_acc:
  "distinct (map fst acc @ map fst query) \<Longrightarrow>
   foldl (\<lambda>d (key, v). if v \<noteq> PNone then dict_set d key v else d) acc query
     = acc @ filter (\<lambda>(key, v). v \<noteq> PNone) query"
proof (induction query arbitrary: acc)
  case Nil
  then show ?case by simp
next
  case (Cons kv query)
  obtain k v where kv: "kv = (k, v)" by (cases kv)
  show ?case
  proof (cases "v = PNone")
    case True
    with Cons kv show ?thesis by simp
  next
    case False
    from Cons.prems kv have fresh: "k \<notin> fst ` set acc" by auto
    from Cons.prems kv have "distinct (map fst (acc @ [(k, v)]) @ map fst query)" by auto
    from Cons.IH [OF this] False kv fresh show ?thesis
      by (simp add: dict_set_fresh)
  qed
qed

lemma drop_none_filter:
  "distinct (map fst query) \<Longrightarrow> drop_none query = filter (\<lambda>(key, v). v \<noteq> PNone) query"
  using drop_none_acc [of "[]" query] by (simp add: drop_none_def)

lemma count_list_distinct:
  "distinct xs \<Longrightarrow> count_list xs x = (if x \<in> set xs then 1 else 0)"
  by (induction xs) auto

text \<open>What \<open>_request\<close> does once the URL is built, on a client that can send.\<close>

lemma request_sent:
  assumes "working c w sid" and "request_url c path abs_path query = Inr u"
  shows "request net c w path abs_path query data meth tok
           = (case snd (net (log w) (request_call sid meth u data tok)) of
                Timeout \<Rightarrow> Inl (RuntimeError ''Timeout occurred while connecting to Docker'')
              | ClientError \<Rightarrow>
                  Inl (RuntimeError ''Error occurred while communicating with Docker'')
              | Response r \<Rightarrow> classify r,
              w\<lparr>clock := clock w + fst (net (log w) (request_call sid meth u data tok)),
                log := log w @ [request_call sid meth u data tok]\<rparr>)"
  using assms
  by (simp add: request_def working_def Let_def split: prod.splits transport.splits)

lemma request_log:
  assumes "working c w sid" and "request_url c path abs_path query = Inr u"
  shows "log (snd (request net c w path abs_path query data meth tok))
           = log w @ [request_call sid meth u data tok]"
  by (simp add: request_sent [OF assms])

lemma request_result:
  assumes "working c w sid" and "request_url c path abs_path query = Inr u"
  shows "fst (request net c w path abs_path query data meth tok)
           = (case snd (net (log w) (request_call sid meth u data tok)) of
                Timeout \<Rightarrow> Inl (RuntimeError ''Timeout occurred while connecting to Docker'')
              | ClientError \<Rightarrow>
                  Inl (RuntimeError ''Error occurred while communicating with Docker'')
              | Response r \<Rightarrow> classify r)"
  by (simp add: request_sent [OF assms])

lemma request_not_built:
  "request_url c path abs_path query = Inl e \<Longrightarrow>
   request net c w path abs_path query data meth tok = (Inl e, w)"
  by (simp add: request_def)

lemma request_closed: "closed (snd (request net c w path abs_path query data meth tok)) = closed w"
  by (simp add: request_def Let_def split: sum.splits option.splits prod.splits transport.splits)

lemma request_calls:
  assumes "session c = Some sid"
  shows "\<exists>new. log (snd (request net c w path abs_path query data meth tok)) = log w @ new
               \<and> list_all (\<lambda>call. call_session call = sid) new"
proof (cases "\<exists>u. request_url c path abs_path query = Inr u \<and> session_open w sid")
  case True
  then obtain u where u: "request_url c path abs_path query = Inr u" and o: "session_open w sid"
    by blast
  have "log (snd (request net c w path abs_path query data meth tok))
          = log w @ [request_call sid meth u data tok]"
    using assms u o
    by (simp add: request_def Let_def split: prod.splits transport.splits)
  then show ?thesis by (simp add: request_call_def)
next
  case False
  then have "log (snd (request net c w path abs_path query data meth tok)) = log w @ []"
    using assms by (auto simp add: request_def split: sum.splits)
  then show ?thesis by (intro exI [of _ "[]"]) simp
qed

text \<open>The URL of a client that can send, when the query can be encoded.\<close>

lemma working_url:
  assumes "working c w sid" and "query_seq_pairs (drop_none query) = Inr pairs"
  shows "request_url c path abs_path query
           = Inr \<lparr>url_scheme = ''http'', url_host = host_name c, url_port = port c,
                  url_path = request_path c abs_path path, url_query = pairs\<rparr>"
  using assms by (auto simp add: request_url_def url_build_def working_def host_name_def)

lemma query_seq_pairs_scalars:
  assumes "\<forall>kv \<in> set q. \<exists>t. query_var (snd kv) = Inr t \<and> (\<forall>vs. snd kv \<noteq> PList vs)"
  shows "query_seq_pairs q
           = Inr (map (\<lambda>kv. (quote (fst kv),
                               quote (case query_var (snd kv) of Inr t \<Rightarrow> t | Inl e \<Rightarrow> []))) q)"
proof -
  have "map_all query_item q
          = Inr (map (\<lambda>kv. [(quote (fst kv),
                               quote (case query_var (snd kv) of Inr t \<Rightarrow> t | Inl e \<Rightarrow> []))]) q)"
    using assms
  proof (induction q)
    case Nil
    then show ?case by simp
  next
    case (Cons kv q)
    from Cons.prems obtain t where t: "query_var (snd kv) = Inr t"
      and nl: "\<forall>vs. snd kv \<noteq> PList vs" by auto
    have "query_item kv = Inr [(quote (fst kv), quote t)]"
      using t nl by (cases "snd kv") (simp_all add: query_item_def query_pair_def)
    with Cons t show ?case by simp
  qed
  then show ?thesis
    by (simp add: query_seq_pairs_def concat_map_singleton)
qed

lemma quoted_keys_distinct:
  "distinct (map fst q) \<Longrightarrow> distinct (map (\<lambda>kv. quote (fst kv)) q)"
proof -
  assume d: "distinct (map fst q)"
  have i: "inj_on quote (set (map fst q))"
    by (rule inj_onI) (rule quote_inj)
  have "distinct (map quote (map fst q))"
  proof (rule iffD2 [OF distinct_map])
    show "distinct (map fst q) \<and> inj_on quote (set (map fst q))"
      using d i by (rule conjI)
  qed
  then show ?thesis by (simp only: map_map comp_def)
qed

text \<open>
  Claim C9, as amended. For every query mapping (a dict: its keys are distinct) whose
  values are \<open>None\<close>, strings or integers, passed to \<open>_request\<close> on a client that
  can send: one call is sent; a key whose value is \<open>None\<close> is absent from the encoded
  query of its URL, and a key with a string or an integer is there exactly once, with the
  encoded text of its value; the query string is these components, one per key that is
  kept, in order.
\<close>

theorem query_nulls_dropped:
  assumes "distinct (map fst query)"
    and "working c w sid"
    and "\<forall>kv \<in> set query. snd kv = PNone \<or> (\<exists>s. snd kv = PStr s) \<or> (\<exists>n. snd kv = PInt n)"
  shows "let call = last (log (snd (request net c w path abs_path query data meth tok)));
             q = url_query (call_url call)
         in log (snd (request net c w path abs_path query data meth tok)) = log w @ [call]
          \<and> (\<forall>key. (key, PNone) \<in> set query \<longrightarrow> quote key \<notin> fst ` set q)
          \<and> (\<forall>key s. (key, PStr s) \<in> set query
                \<longrightarrow> count_list (map fst q) (quote key) = 1
                    \<and> map_of q (quote key) = Some (quote s))
          \<and> (\<forall>key n. (key, PInt n) \<in> set query
                \<longrightarrow> count_list (map fst q) (quote key) = 1
                    \<and> map_of q (quote key) = Some (quote (str_int n)))
          \<and> query_string (call_url call)
              = join ''&''
                  (map (\<lambda>kv. quote (fst kv) @ ''='' @
                              quote (case snd kv of PStr s \<Rightarrow> s | PInt n \<Rightarrow> str_int n | _ \<Rightarrow> []))
                     (filter (\<lambda>kv. snd kv \<noteq> PNone) query))"
proof -
  let ?keep = "filter (\<lambda>kv. snd kv \<noteq> PNone) query"
  let ?text = "\<lambda>v. case v of PStr s \<Rightarrow> s | PInt n \<Rightarrow> str_int n | _ \<Rightarrow> []"
  let ?pairs = "map (\<lambda>kv. (quote (fst kv), quote (?text (snd kv)))) ?keep"
  have dn: "drop_none query = ?keep"
    using drop_none_filter [OF assms(1)] by (simp add: split_def)
  have sc: "\<forall>kv \<in> set ?keep. \<exists>t. query_var (snd kv) = Inr t \<and> (\<forall>vs. snd kv \<noteq> PList vs)"
    using assms(3) by (auto simp add: query_var_def)
  have tx: "(case query_var (snd kv) of Inr t \<Rightarrow> t | Inl e \<Rightarrow> []) = ?text (snd kv)"
    if "kv \<in> set ?keep" for kv
    using that assms(3) by (auto simp add: query_var_def)
  have qp: "query_seq_pairs (drop_none query) = Inr ?pairs"
    unfolding dn query_seq_pairs_scalars [OF sc] using tx by simp
  let ?u = "\<lparr>url_scheme = ''http'', url_host = host_name c, url_port = port c,
             url_path = request_path c abs_path path, url_query = ?pairs\<rparr>"
  have u: "request_url c path abs_path query = Inr ?u"
    by (rule working_url [OF assms(2) qp])
  have lg: "log (snd (request net c w path abs_path query data meth tok))
              = log w @ [request_call sid meth ?u data tok]"
    by (rule request_log [OF assms(2) u])
  have q: "url_query (call_url (last (log (snd
              (request net c w path abs_path query data meth tok))))) = ?pairs"
    by (simp add: lg request_call_def)
  have keys: "map fst ?pairs = map (\<lambda>kv. quote (fst kv)) ?keep"
    by simp
  have dk: "distinct (map fst ?keep)"
    using assms(1) by (simp add: distinct_map_filter)
  have d: "distinct (map fst ?pairs)"
    unfolding keys by (rule quoted_keys_distinct [OF dk])
  have a: "quote key \<notin> fst ` set ?pairs" if "(key, PNone) \<in> set query" for key
  proof
    assume "quote key \<in> fst ` set ?pairs"
    then obtain kv where kv: "kv \<in> set query" "snd kv \<noteq> PNone" "quote (fst kv) = quote key"
      by auto
    from kv(3) have "fst kv = key" by (rule quote_inj)
    with kv(1) have "(key, snd kv) \<in> set query" by (metis prod.collapse)
    then have "map_of query key = Some (snd kv)"
      using assms(1) by (intro map_of_is_SomeI)
    moreover have "map_of query key = Some PNone"
      using assms(1) that by (rule map_of_is_SomeI)
    ultimately show False using kv(2) by simp
  qed
  have b: "count_list (map fst ?pairs) (quote key) = 1
           \<and> map_of ?pairs (quote key) = Some (quote (?text v))"
    if "(key, v) \<in> set query" "v \<noteq> PNone" for key v
  proof -
    from that have m: "(quote key, quote (?text v)) \<in> set ?pairs" by force
    then have "quote key \<in> set (map fst ?pairs)" by force
    with d have "count_list (map fst ?pairs) (quote key) = 1"
      by (simp only: count_list_distinct if_True)
    moreover from d m have "map_of ?pairs (quote key) = Some (quote (?text v))"
      by (rule map_of_is_SomeI)
    ultimately show ?thesis by simp
  qed
  have qs: "query_string (call_url (last (log (snd
              (request net c w path abs_path query data meth tok)))))
            = join ''&'' (map (\<lambda>kv. quote (fst kv) @ ''='' @ quote (?text (snd kv))) ?keep)"
    by (simp add: lg request_call_def query_string_def comp_def)
  have bs: "count_list (map fst ?pairs) (quote key) = 1
            \<and> map_of ?pairs (quote key) = Some (quote s)"
    if "(key, PStr s) \<in> set query" for key s
    using b [OF that] by simp
  have bi: "count_list (map fst ?pairs) (quote key) = 1
            \<and> map_of ?pairs (quote key) = Some (quote (str_int n))"
    if "(key, PInt n) \<in> set query" for key n
    using b [OF that] by simp
  show ?thesis
    unfolding Let_def q qs using lg a bs bi by (simp add: request_call_def)
qed

lemma demo_client_simps:
  "session (demo_client e) = Some 1" "env_id (demo_client e) = e"
  "host (demo_client e) = Some ''localhost''" "port (demo_client e) = Some 9000"
  "token (demo_client e) = PNone" "close_session (demo_client e)"
  "host_name (demo_client e) = ''localhost''"
  by (simp_all add: demo_client_def init_def demo_world_def Let_def host_name_def)

lemma demo_state_simps:
  "clock demo_state = 0" "log demo_state = []" "closed demo_state = [False, False]"
  by (simp_all add: demo_state_def init_def demo_world_def Let_def)

lemma demo_working: "working (demo_client e) demo_state 1"
  by (simp add: working_def session_open_def demo_client_simps demo_state_simps)

theorem query_nulls_dropped_witness:
  "distinct (map fst [(''since'', PNone), (''limit'', PInt 1), (''before'', PStr ''a b'')])
   \<and> working (demo_client 1) demo_state 1
   \<and> (let q = url_query (call_url (last (log (snd
                (request demo_net (demo_client 1) demo_state ''/containers/json'' False
                   [(''since'', PNone), (''limit'', PInt 1), (''before'', PStr ''a b'')]
                   PNone ''GET'' PNone)))))
       in quote ''since'' \<notin> fst ` set q
        \<and> count_list (map fst q) (quote ''limit'') = 1
        \<and> map_of q (quote ''limit'') = Some (quote (str_int 1)))
   \<and> quote ''since'' = ''since'' \<and> quote ''limit'' = ''limit'' \<and> quote (str_int 1) = ''1''
   \<and> query_string (call_url (last (log (snd
         (request demo_net (demo_client 1) demo_state ''/containers/json'' False
            [(''since'', PNone), (''limit'', PInt 1), (''before'', PStr ''a b'')]
            PNone ''GET'' PNone)))))
       = ''limit=1&before=a+b''"
proof -
  let ?Q = "[(''since'', PNone), (''limit'', PInt 1), (''before'', PStr ''a b'')]"
  let ?call = "last (log (snd (request demo_net (demo_client 1) demo_state ''/containers/json''
                 False ?Q PNone ''GET'' PNone)))"
  have h1: "distinct (map fst ?Q)" by simp
  have h2: "working (demo_client 1) demo_state 1" by (rule demo_working)
  have h3: "\<forall>kv \<in> set ?Q. snd kv = PNone \<or> (\<exists>s. snd kv = PStr s) \<or> (\<exists>n. snd kv = PInt n)"
    by simp
  note t = query_nulls_dropped [OF h1 h2 h3, of demo_net "''/containers/json''" False PNone
             "''GET''" PNone, unfolded Let_def]
  from t have a: "(''since'', PNone) \<in> set ?Q
                    \<longrightarrow> quote ''since'' \<notin> fst ` set (url_query (call_url ?call))"
    by (elim conjE allE [of _ "''since''"])
  from t have "\<forall>key n. (key, PInt n) \<in> set ?Q
                \<longrightarrow> count_list (map fst (url_query (call_url ?call))) (quote key) = 1
                    \<and> map_of (url_query (call_url ?call)) (quote key) = Some (quote (str_int n))"
    by (elim conjE)
  then have b: "(''limit'', PInt 1) \<in> set ?Q
       \<longrightarrow> count_list (map fst (url_query (call_url ?call))) (quote ''limit'') = 1
           \<and> map_of (url_query (call_url ?call)) (quote ''limit'') = Some (quote (str_int 1))"
    by (elim allE [of _ "''limit''"]) (erule allE [of _ 1])
  from t have s: "query_string (call_url ?call)
              = join ''&''
                  (map (\<lambda>kv. quote (fst kv) @ ''='' @
                              quote (case snd kv of PStr s \<Rightarrow> s | PInt n \<Rightarrow> str_int n | _ \<Rightarrow> []))
                     (filter (\<lambda>kv. snd kv \<noteq> PNone) ?Q))"
    by (elim conjE)
  have q: "quote ''since'' = ''since''" "quote ''limit'' = ''limit''" "quote (str_int 1) = ''1''"
    "quote ''before'' = ''before''" "quote ''a b'' = ''a+b''"
    by (simp_all add: quote_def quote_char_def query_safe_def str_int_def digit_char_def)
  from a have a': "quote ''since'' \<notin> fst ` set (url_query (call_url ?call))" by simp
  from b have b': "count_list (map fst (url_query (call_url ?call))) (quote ''limit'') = 1
           \<and> map_of (url_query (call_url ?call)) (quote ''limit'') = Some (quote (str_int 1))"
    by simp
  from s have s': "query_string (call_url ?call) = ''limit=1&before=a+b''"
    by (simp add: q)
  show ?thesis unfolding Let_def using h1 h2 a' b' q(1-3) s' by (intro conjI) simp_all
qed

text \<open>
  Claim C9, as stated for every mapping, fails on values that the URL library does not
  take as one text: a boolean raises \<open>TypeError\<close> while the URL is built, so nothing is
  sent and the key is in no encoded query, and a list is encoded once per item, so its key
  is there twice.
\<close>

theorem query_values_counterexample:
  "request demo_net (demo_client 1) demo_state ''/containers/json'' False
     [(''all'', PBool True)] PNone ''GET'' PNone = (Inl TypeError, demo_state)
   \<and> log demo_state = []
   \<and> query_string (call_url (last (log (snd
         (request demo_net (demo_client 1) demo_state ''/containers/json'' False
            [(''label'', PList [PStr ''a'', PStr ''b''])] PNone ''GET'' PNone)))))
       = ''label=a&label=b''
   \<and> count_list (map fst (url_query (call_url (last (log (snd
         (request demo_net (demo_client 1) demo_state ''/containers/json'' False
            [(''label'', PList [PStr ''a'', PStr ''b''])] PNone ''GET'' PNone)))))))
         ''label'' = 2"
proof -
  have a: "request_url (demo_client 1) ''/containers/json'' False [(''all'', PBool True)]
             = Inl TypeError"
    by (simp add: request_url_def url_build_def demo_client_simps drop_none_def
          query_seq_pairs_def query_item_def query_pair_def query_var_def)
  have q: "quote ''label'' = ''label''" "quote ''a'' = ''a''" "quote ''b'' = ''b''"
    by (simp_all add: quote_def quote_char_def query_safe_def)
  have p: "query_seq_pairs (drop_none [(''label'', PList [PStr ''a'', PStr ''b''])])
             = Inr [(''label'', ''a''), (''label'', ''b'')]"
    by (simp add: drop_none_def query_seq_pairs_def query_item_def query_pair_def
          query_var_def q)
  note u = working_url [OF demo_working p, of 1 "''/containers/json''" False]
  note l = request_log [OF demo_working u, of demo_net PNone "''GET''" PNone]
  show ?thesis
    using request_not_built [OF a, of demo_net demo_state PNone "''GET''" PNone]
    by (simp add: l request_call_def query_string_def demo_state_simps)
qed

lemma demo_url:
  "request_url (demo_client e) path abs_path []
     = Inr \<lparr>url_scheme = ''http'', url_host = ''localhost'', url_port = Some 9000,
            url_path = request_path (demo_client e) abs_path path, url_query = []\<rparr>"
  using working_url [OF demo_working, of "[]" "[]" e path abs_path]
  by (simp add: drop_none_def query_seq_pairs_def demo_client_simps)

text \<open>
  Claim C1. The claim scopes a relative path under the client's configured \<open>env_id\<close>.
  \<open>_request\<close> writes the endpoint 1 into every such path: a client built with
  \<open>env_id = 2\<close> asks for \<open>/api/endpoints/1/docker/containers/json\<close>, which is not the
  path the claim gives for it.
\<close>

theorem endpoint_id_is_not_used:
  "env_id (demo_client 2) = 2
   \<and> url_path (call_url (last (log (snd
         (request demo_net (demo_client 2) demo_state ''/containers/json'' False []
            PNone ''GET'' PNone)))))
       = ''/api/endpoints/1/docker/containers/json''
   \<and> ''/api/endpoints/1/docker/containers/json''
       \<noteq> ''/api/endpoints/'' @ str_int (env_id (demo_client 2)) @ ''/docker'' @ ''/containers/json''"
  by (simp add: request_log [OF demo_working demo_url] demo_client_simps request_call_def
        request_path_def str_int_def digit_char_def)

lemma div_100_hundreds:
  "((s::int) div 100 = 4 \<or> s div 100 = 5) \<longleftrightarrow> 400 \<le> s \<and> s \<le> 599"
  by auto

text \<open>
  Claim C2. When the round trip completes with a response, the result is decided in this
  order: a status from 400 to 599 gives the failure carrying the body decoded as text,
  whatever the content type and the JSON reading of the body are; otherwise 204 gives the
  empty success; otherwise a content type containing \<open>application/json\<close> gives the
  decoded JSON payload; otherwise the body text. (Where the decoder that is used raises,
  its exception is the result.)
\<close>

theorem response_classification:
  assumes "working c w sid"
    and "request_url c path abs_path query = Inr u"
    and "snd (net (log w) (request_call sid meth u data tok)) = Response r"
  shows "fst (request net c w path abs_path query data meth tok) =
           (if 400 \<le> status r \<and> status r \<le> 599 then
              (case body_utf8 r of Inl e \<Rightarrow> Inl e
                                 | Inr body \<Rightarrow> Inr (ActionResponse False (Some body)))
            else if status r = 204 then Inr (ActionResponse True None)
            else if contains ''application/json'' (headers_get (headers r) ''Content-Type'' [])
              then (case body_json r of Inl e \<Rightarrow> Inl e | Inr j \<Rightarrow> Inr (Val j))
            else (case body_text r of Inl e \<Rightarrow> Inl e | Inr t \<Rightarrow> Inr (Val (PStr t))))"
proof -
  have "fst (request net c w path abs_path query data meth tok) = classify r"
    using assms(3) by (simp add: request_result [OF assms(1,2)])
  moreover have "(status r div 100 \<in> {4, 5}) = (400 \<le> status r \<and> status r \<le> 599)"
    using div_100_hundreds [of "status r"] by simp
  ultimately show ?thesis
    by (simp only: classify_def Let_def)
qed

lemma demo_scoped_url:
  "request_url (demo_client e) path False []
     = Inr \<lparr>url_scheme = ''http'', url_host = ''localhost'', url_port = Some 9000,
            url_path = ''/api/endpoints/1/docker'' @ path, url_query = []\<rparr>"
  by (simp add: demo_url request_path_def)

theorem response_classification_witness:
  "working (demo_client 1) demo_state 1
   \<and> request_url (demo_client 1) ''/containers/c2/json'' False []
       = Inr \<lparr>url_scheme = ''http'', url_host = ''localhost'', url_port = Some 9000,
              url_path = ''/api/endpoints/1/docker/containers/c2/json'', url_query = []\<rparr>
   \<and> snd (demo_net (log demo_state)
            (request_call 1 ''GET''
               \<lparr>url_scheme = ''http'', url_host = ''localhost'', url_port = Some 9000,
                url_path = ''/api/endpoints/1/docker/containers/c2/json'', url_query = []\<rparr>
               PNone (PStr ''tok'')))
       = Response (error_response 404 ''no such container'')
   \<and> fst (request demo_net (demo_client 1) demo_state ''/containers/c2/json'' False []
             PNone ''GET'' (PStr ''tok''))
       = Inr (ActionResponse False (Some ''no such container''))"
proof -
  let ?u = "\<lparr>url_scheme = ''http'', url_host = ''localhost'', url_port = Some 9000,
             url_path = ''/api/endpoints/1/docker/containers/c2/json'', url_query = []\<rparr>"
  have h1: "working (demo_client 1) demo_state 1" by (rule demo_working)
  have h2: "request_url (demo_client 1) ''/containers/c2/json'' False [] = Inr ?u"
    by (simp add: demo_scoped_url)
  have h3: "snd (demo_net (log demo_state) (request_call 1 ''GET'' ?u PNone (PStr ''tok'')))
            = Response (error_response 404 ''no such container'')"
    by (simp add: demo_net_def request_call_def Let_def)
  show ?thesis
    using h1 h2 h3
      response_classification [where net = demo_net and w = demo_state, OF h1 h2 h3]
    by (simp add: error_response_def)
qed

text \<open>
  Claim C4. When the round trip does not complete, a timeout raises the timeout error and
  any other client error raises the communication error; the two exceptions differ, and
  unless there is a response no value is returned.
\<close>

theorem transport_failures_raise:
  assumes "working c w sid" and "request_url c path abs_path query = Inr u"
  shows "(snd (net (log w) (request_call sid meth u data tok)) = Timeout
            \<longrightarrow> fst (request net c w path abs_path query data meth tok)
                  = Inl (RuntimeError ''Timeout occurred while connecting to Docker''))
       \<and> (snd (net (log w) (request_call sid meth u data tok)) = ClientError
            \<longrightarrow> fst (request net c w path abs_path query data meth tok)
                  = Inl (RuntimeError ''Error occurred while communicating with Docker''))
       \<and> RuntimeError ''Timeout occurred while connecting to Docker''
            \<noteq> RuntimeError ''Error occurred while communicating with Docker''
       \<and> ((\<exists>r. snd (net (log w) (request_call sid meth u data tok)) = Response r)
            \<or> (\<forall>v. fst (request net c w path abs_path query data meth tok) \<noteq> Inr v))"
  by (auto simp add: request_result [OF assms] split: transport.splits)

theorem transport_failures_raise_witness:
  "working (demo_client 1) demo_state 1
   \<and> request_url (demo_client 1) ''/slow'' False []
       = Inr \<lparr>url_scheme = ''http'', url_host = ''localhost'', url_port = Some 9000,
              url_path = ''/api/endpoints/1/docker/slow'', url_query = []\<rparr>
   \<and> snd (demo_net (log demo_state)
            (request_call 1 ''GET''
               \<lparr>url_scheme = ''http'', url_host = ''localhost'', url_port = Some 9000,
                url_path = ''/api/endpoints/1/docker/slow'', url_query = []\<rparr> PNone PNone))
       = Timeout
   \<and> fst (request demo_net (demo_client 1) demo_state ''/slow'' False [] PNone ''GET'' PNone)
       = Inl (RuntimeError ''Timeout occurred while connecting to Docker'')
   \<and> request_url (demo_client 1) ''/down'' False []
       = Inr \<lparr>url_scheme = ''http'', url_host = ''localhost'', url_port = Some 9000,
              url_path = ''/api/endpoints/1/docker/down'', url_query = []\<rparr>
   \<and> snd (demo_net (log demo_state)
            (request_call 1 ''GET''
               \<lparr>url_scheme = ''http'', url_host = ''localhost'', url_port = Some 9000,
                url_path = ''/api/endpoints/1/docker/down'', url_query = []\<rparr> PNone PNone))
       = ClientError
   \<and> fst (request demo_net (demo_client 1) demo_state ''/down'' False [] PNone ''GET'' PNone)
       = Inl (RuntimeError ''Error occurred while communicating with Docker'')"
proof -
  let ?s = "\<lparr>url_scheme = ''http'', url_host = ''localhost'', url_port = Some 9000,
             url_path = ''/api/endpoints/1/docker/slow'', url_query = []\<rparr>"
  let ?d = "\<lparr>url_scheme = ''http'', url_host = ''localhost'', url_port = Some 9000,
             url_path = ''/api/endpoints/1/docker/down'', url_query = []\<rparr>"
  have h: "working (demo_client 1) demo_state 1" by (rule demo_working)
  have us: "request_url (demo_client 1) ''/slow'' False [] = Inr ?s"
    and ud: "request_url (demo_client 1) ''/down'' False [] = Inr ?d"
    by (simp_all add: demo_scoped_url)
  have t: "snd (demo_net (log demo_state) (request_call 1 ''GET'' ?s PNone PNone)) = Timeout"
    by (simp add: demo_net_def request_call_def Let_def)
  have e: "snd (demo_net (log demo_state) (request_call 1 ''GET'' ?d PNone PNone)) = ClientError"
    by (simp add: demo_net_def request_call_def Let_def)
  show ?thesis
    using h us ud t e
      transport_failures_raise [OF h us, where net = demo_net and meth = "''GET''"
        and data = PNone and tok = PNone]
      transport_failures_raise [OF h ud, where net = demo_net and meth = "''GET''"
        and data = PNone and tok = PNone]
    by simp
qed

section \<open>Properties of the token manager\<close>

lemma exchange_url:
  assumes "working c w sid"
  shows "request_url c ''/auth'' True [] = Inr (call_url (exchange_call c sid))"
  using working_url [OF assms, of "[]" "[]" "''/auth''" True]
  by (simp add: drop_none_def query_seq_pairs_def exchange_call_def request_path_def)

lemma exchange_call_eq:
  "request_call sid ''POST'' (call_url (exchange_call c sid))
     (PDict [(''username'', username c), (''password'', password c)]) PNone
   = exchange_call c sid"
  by (simp add: request_call_def exchange_call_def request_headers_def)

lemma refresh_token_fresh:
  "token c \<noteq> PNone \<Longrightarrow> token_expiry c = Some e \<Longrightarrow> clock w < e \<Longrightarrow>
   refresh_token net c w = (Inr (), c, w)"
  by (simp add: refresh_token_def)

lemma refresh_token_exchange:
  assumes "working c w sid"
    and "token c = PNone \<or> (\<exists>e. token_expiry c = Some e \<and> e \<le> clock w)"
  shows "refresh_token net c w =
           (let w' = w\<lparr>clock := clock w + fst (net (log w) (exchange_call c sid)),
                       log := log w @ [exchange_call c sid]\<rparr>
            in case fst (request net c w ''/auth'' True []
                      (PDict [(''username'', username c), (''password'', password c)])
                      ''POST'' PNone) of
                 Inl e \<Rightarrow> (Inl e, c, w')
               | Inr res \<Rightarrow>
                   (case subscript res ''jwt'' of
                      Inl e \<Rightarrow> (Inl e, c, w')
                    | Inr jwt \<Rightarrow>
                        (Inr (),
                         c\<lparr>token := jwt, token_expiry := Some (clock w' + token_lifetime)\<rparr>,
                         w')))"
proof -
  let ?data = "PDict [(''username'', username c), (''password'', password c)]"
  obtain x w1 where r: "request net c w ''/auth'' True [] ?data ''POST'' PNone = (x, w1)"
    by (cases "request net c w ''/auth'' True [] ?data ''POST'' PNone")
  have w1: "w1 = w\<lparr>clock := clock w + fst (net (log w) (exchange_call c sid)),
                    log := log w @ [exchange_call c sid]\<rparr>"
    using request_sent [OF assms(1) exchange_url [OF assms(1)], of net ?data "''POST''" PNone] r
    by (simp add: exchange_call_eq)
  from assms(2) have need:
    "(if token c = PNone then Inr True
      else case token_expiry c of None \<Rightarrow> Inl TypeError
                                | Some expiry \<Rightarrow> Inr (clock w \<ge> expiry)) = Inr True"
    by auto
  show ?thesis
    unfolding refresh_token_def need using r w1
    by (simp add: Let_def split: sum.splits)
qed

text \<open>
  Claim C3. Before an authenticated call, on a client that can send: when the client
  holds no token, or a token whose expiry is at or before the current time, exactly one
  call is made first and it is the credential exchange, whatever its outcome; when the
  exchange answers with a JSON object holding \<open>jwt\<close>, the wrapped function runs on the
  state in which the token and its expiry have both been replaced, the expiry being the
  time the exchange returned plus 7 hours 59 minutes, and it is given the new token. When
  the expiry is in the future, the wrapped function runs on the unchanged state, with no
  call before it.
\<close>

theorem token_refresh:
  assumes "working c w sid"
  shows "(token c = PNone \<or> (\<exists>e. token_expiry c = Some e \<and> e \<le> clock w)
            \<longrightarrow> log (snd (snd (refresh_token net c w))) = log w @ [exchange_call c sid])
       \<and> (token c = PNone \<or> (\<exists>e. token_expiry c = Some e \<and> e \<le> clock w)
            \<longrightarrow> net (log w) (exchange_call c sid) = (dt, Response r)
            \<longrightarrow> classify r = Inr (Val (PDict d))
            \<longrightarrow> map_of d ''jwt'' = Some jwt
            \<longrightarrow> auth net f c w
                  = f (c\<lparr>token := jwt,
                          token_expiry := Some (clock w + dt + token_lifetime)\<rparr>)
                      (w\<lparr>clock := clock w + dt, log := log w @ [exchange_call c sid]\<rparr>)
                      jwt)
       \<and> (token c \<noteq> PNone \<and> (\<exists>e. token_expiry c = Some e \<and> clock w < e)
            \<longrightarrow> auth net f c w = f c w (token c))"
proof (intro conjI impI)
  assume need: "token c = PNone \<or> (\<exists>e. token_expiry c = Some e \<and> e \<le> clock w)"
  show "log (snd (snd (refresh_token net c w))) = log w @ [exchange_call c sid]"
    unfolding refresh_token_exchange [OF assms need]
    by (simp add: Let_def split: sum.splits)
next
  assume need: "token c = PNone \<or> (\<exists>e. token_expiry c = Some e \<and> e \<le> clock w)"
    and n: "net (log w) (exchange_call c sid) = (dt, Response r)"
    and r: "classify r = Inr (Val (PDict d))"
    and d: "map_of d ''jwt'' = Some jwt"
  have "fst (request net c w ''/auth'' True []
               (PDict [(''username'', username c), (''password'', password c)])
               ''POST'' PNone) = Inr (Val (PDict d))"
    using n r by (simp add: request_result [OF assms exchange_url [OF assms]] exchange_call_eq)
  moreover have "subscript (Val (PDict d)) ''jwt'' = Inr jwt"
    using d by (simp add: subscript_def py_item_def)
  ultimately show "auth net f c w
      = f (c\<lparr>token := jwt, token_expiry := Some (clock w + dt + token_lifetime)\<rparr>)
          (w\<lparr>clock := clock w + dt, log := log w @ [exchange_call c sid]\<rparr>) jwt"
    unfolding auth_def refresh_token_exchange [OF assms need] using n
    by (simp add: Let_def)
next
  assume "token c \<noteq> PNone \<and> (\<exists>e. token_expiry c = Some e \<and> clock w < e)"
  then show "auth net f c w = f c w (token c)"
    by (auto simp add: auth_def refresh_token_fresh)
qed

theorem token_refresh_witness:
  "working (demo_client 1) demo_state 1
   \<and> token (demo_client 1) = PNone
   \<and> demo_net (log demo_state) (exchange_call (demo_client 1) 1)
       = (1000000, Response (json_response (PDict [(''jwt'', PStr ''tok'')])))
   \<and> log (snd (snd (refresh_token demo_net (demo_client 1) demo_state)))
       = [exchange_call (demo_client 1) 1]
   \<and> auth demo_net (\<lambda>c w tok. (Inr tok, c, w)) (demo_client 1) demo_state
       = (Inr (PStr ''tok''),
          (demo_client 1)\<lparr>token := PStr ''tok'', token_expiry := Some 28741000000\<rparr>,
          demo_state\<lparr>clock := 1000000, log := [exchange_call (demo_client 1) 1]\<rparr>)
   \<and> auth demo_net (\<lambda>c w tok. (Inr tok, c, w))
         ((demo_client 1)\<lparr>token := PStr ''old'', token_expiry := Some 5\<rparr>) demo_state
       = (Inr (PStr ''old''),
          (demo_client 1)\<lparr>token := PStr ''old'', token_expiry := Some 5\<rparr>, demo_state)"
proof -
  let ?f = "\<lambda>(c::client) (w::world) (tok::pyval). (Inr tok :: exn + pyval, c, w)"
  let ?j = "json_response (PDict [(''jwt'', PStr ''tok'')])"
  let ?c2 = "(demo_client 1)\<lparr>token := PStr ''old'', token_expiry := Some 5\<rparr>"
  have s: "working (demo_client 1) demo_state 1" by (rule demo_working)
  have t: "token (demo_client 1) = PNone"
    by (simp add: demo_client_simps)
  have n: "demo_net (log demo_state) (exchange_call (demo_client 1) 1) = (1000000, Response ?j)"
    by (simp add: demo_net_def exchange_call_def Let_def)
  have r: "classify ?j = Inr (Val (PDict [(''jwt'', PStr ''tok'')]))"
    by (simp add: classify_def json_response_def headers_get_def lower_char_def)
  have d: "map_of [(''jwt'', PStr ''tok'')] ''jwt'' = Some (PStr ''tok'')"
    by simp
  note a = token_refresh [OF s, of demo_net 1000000 ?j "[(''jwt'', PStr ''tok'')]"
             "PStr ''tok''" ?f]
  have s2: "working ?c2 demo_state 1"
    using s by (simp add: working_def)
  note b = token_refresh [OF s2, of demo_net 0 ?j "[]" PNone ?f]
  from a t have l: "log (snd (snd (refresh_token demo_net (demo_client 1) demo_state)))
                     = [exchange_call (demo_client 1) 1]"
    by (simp add: demo_state_simps)
  from a t n r d have x: "auth demo_net ?f (demo_client 1) demo_state
       = (Inr (PStr ''tok''),
          (demo_client 1)\<lparr>token := PStr ''tok'', token_expiry := Some 28741000000\<rparr>,
          demo_state\<lparr>clock := 1000000, log := [exchange_call (demo_client 1) 1]\<rparr>)"
    by (simp add: demo_state_simps token_lifetime_def)
  from b have y: "auth demo_net ?f ?c2 demo_state = (Inr (PStr ''old''), ?c2, demo_state)"
    by (simp add: demo_state_simps)
  from s t n l x y show ?thesis by simp
qed

section \<open>Properties of the session\<close>

lemma refresh_token_session:
  "session (fst (snd (refresh_token net c w))) = session c"
  by (simp add: refresh_token_def Let_def split: sum.splits bool.splits option.splits prod.splits)

lemma refresh_token_calls:
  assumes "session c = Some sid"
  shows "\<exists>new. log (snd (snd (refresh_token net c w))) = log w @ new
               \<and> list_all (\<lambda>call. call_session call = sid) new"
proof (cases "refresh_token net c w = (Inr (), c, w) \<or> refresh_token net c w = (Inl TypeError, c, w)")
  case True
  then have "log (snd (snd (refresh_token net c w))) = log w @ []" by auto
  then show ?thesis by (intro exI [of _ "[]"]) simp
next
  case False
  let ?data = "PDict [(''username'', username c), (''password'', password c)]"
  from False have "log (snd (snd (refresh_token net c w)))
               = log (snd (request net c w ''/auth'' True [] ?data ''POST'' PNone))"
    by (auto simp add: refresh_token_def Let_def
          split: sum.splits bool.splits option.splits prod.splits if_splits)
  with request_calls [OF assms, of net w "''/auth''" True "[]" ?data "''POST''" PNone]
  show ?thesis by simp
qed

lemma auth_request_calls:
  assumes "session c = Some sid"
  shows "\<exists>new. log (snd (snd (auth net
                   (\<lambda>c' w' tok. case request net c' w' path False query data meth tok of
                                   (r, w'') \<Rightarrow> (r, c', w'')) c w))) = log w @ new
               \<and> list_all (\<lambda>call. call_session call = sid) new"
proof -
  obtain x c1 w1 where r: "refresh_token net c w = (x, c1, w1)"
    by (cases "refresh_token net c w") auto
  from refresh_token_calls [OF assms, of net w] r obtain new1
    where n1: "log w1 = log w @ new1" "list_all (\<lambda>call. call_session call = sid) new1"
    by auto
  from refresh_token_session [of net c w] r assms have s1: "session c1 = Some sid"
    by simp
  show ?thesis
  proof (cases x)
    case (Inl e)
    with r n1 show ?thesis by (auto simp add: auth_def)
  next
    case (Inr u)
    from request_calls [OF s1, of net w1 path False query data meth "token c1"] obtain new2
      where n2: "log (snd (request net c1 w1 path False query data meth (token c1)))
                   = log w1 @ new2"
        "list_all (\<lambda>call. call_session call = sid) new2"
      by auto
    have "log (snd (request net c1 w1 path False query data meth (token c1)))
            = log w @ (new1 @ new2)"
      using n1 n2 by simp
    moreover have "list_all (\<lambda>call. call_session call = sid) (new1 @ new2)"
      using n1 n2 by simp
    ultimately show ?thesis
      using r Inr by (auto simp add: auth_def split: prod.splits)
  qed
qed

text \<open>
  Claim C10. Whatever session the caller supplies to the constructor (an existing
  session, or none), the client holds a session created by the constructor, different
  from the supplied one, and is marked to close it; \<open>close\<close> closes that session and
  leaves the supplied one as it was; every call that \<open>_request\<close>, \<open>_get\<close> and
  \<open>_post\<close> make goes through the client's own session.
\<close>

theorem supplied_session_discarded:
  assumes "\<forall>sid. session_arg = Some sid \<longrightarrow> sid < length (closed w)"
  shows "let c = fst (init w h p e u pw session_arg);
             w1 = snd (init w h p e u pw session_arg);
             own = length (closed w)
         in session c = Some own \<and> session c \<noteq> session_arg \<and> close_session c
          \<and> closed w1 = closed w @ [False]
          \<and> closed (close c w1) = closed w @ [True]
          \<and> (\<forall>w2. closed (close c w2) = (closed w2)[own := True])
          \<and> (\<forall>w2 sid. session_arg = Some sid \<longrightarrow> closed (close c w2) ! sid = closed w2 ! sid)
          \<and> (\<forall>net w2 path abs_path query data meth tok.
                \<exists>new. log (snd (request net c w2 path abs_path query data meth tok))
                        = log w2 @ new
                      \<and> list_all (\<lambda>call. call_session call = own) new)
          \<and> (\<forall>net w2 path abs_path query data meth tok url.
                working c w2 own \<and> request_url c path abs_path query = Inr url
                \<longrightarrow> log (snd (request net c w2 path abs_path query data meth tok))
                      = log w2 @ [request_call own meth url data tok]
                    \<and> call_session (request_call own meth url data tok) = own)
          \<and> (\<forall>net w2 path query.
                \<exists>new. log (snd (snd (get net c w2 path query))) = log w2 @ new
                      \<and> list_all (\<lambda>call. call_session call = own) new)
          \<and> (\<forall>net w2 path data query.
                \<exists>new. log (snd (snd (post net c w2 path data query))) = log w2 @ new
                      \<and> list_all (\<lambda>call. call_session call = own) new)"
proof -
  let ?c = "fst (init w h p e u pw session_arg)"
  have s: "session ?c = Some (length (closed w))" and cs: "close_session ?c"
    by (simp_all add: init_def Let_def)
  have ne: "session ?c \<noteq> session_arg"
    using assms s by auto
  have w1: "closed (snd (init w h p e u pw session_arg)) = closed w @ [False]"
    by (simp add: init_def Let_def)
  have cl: "closed (close ?c w2) = (closed w2)[length (closed w) := True]" for w2
    using s cs by (simp add: close_def)
  have other: "closed (close ?c w2) ! sid = closed w2 ! sid" if "session_arg = Some sid" for w2 sid
    using that assms cl by simp
  have rq: "\<exists>new. log (snd (request net ?c w2 path abs_path query data meth tok)) = log w2 @ new
                 \<and> list_all (\<lambda>call. call_session call = length (closed w)) new"
    for net w2 path abs_path query data meth tok
    by (rule request_calls [OF s])
  have rs: "log (snd (request net ?c w2 path abs_path query data meth tok))
              = log w2 @ [request_call (length (closed w)) meth url data tok]
          \<and> call_session (request_call (length (closed w)) meth url data tok) = length (closed w)"
    if "working ?c w2 (length (closed w)) \<and> request_url ?c path abs_path query = Inr url"
    for net w2 path abs_path query data meth tok url
    using that request_log [of ?c w2 "length (closed w)" path abs_path query url]
    by (simp add: request_call_def)
  have g: "\<exists>new. log (snd (snd (get net ?c w2 path query))) = log w2 @ new
                \<and> list_all (\<lambda>call. call_session call = length (closed w)) new"
    for net w2 path query
    unfolding get_def by (rule auth_request_calls [OF s])
  have po: "\<exists>new. log (snd (snd (post net ?c w2 path data query))) = log w2 @ new
                \<and> list_all (\<lambda>call. call_session call = length (closed w)) new"
    for net w2 path data query
    unfolding post_def by (rule auth_request_calls [OF s])
  have c1: "closed (close ?c (snd (init w h p e u pw session_arg))) = closed w @ [True]"
    using cl [of "snd (init w h p e u pw session_arg)"] w1 by (simp add: list_update_append)
  show ?thesis
    unfolding Let_def
    using s ne cs w1 c1 cl other rq rs g po by (intro conjI allI impI) blast+
qed

theorem supplied_session_discarded_witness:
  "(0::nat) < length (closed demo_world)
   \<and> session (demo_client 1) = Some 1
   \<and> session (demo_client 1) \<noteq> Some 0
   \<and> close_session (demo_client 1)
   \<and> closed (close (demo_client 1) demo_state) = [False, True]
   \<and> working (demo_client 1) demo_state 1
   \<and> call_session (last (log (snd (request demo_net (demo_client 1) demo_state
          ''/containers/json'' False [] PNone ''GET'' PNone)))) = 1"
proof -
  let ?u = "\<lparr>url_scheme = ''http'', url_host = ''localhost'', url_port = Some 9000,
             url_path = ''/api/endpoints/1/docker/containers/json'', url_query = []\<rparr>"
  have h: "\<forall>sid. Some (0::nat) = Some sid \<longrightarrow> sid < length (closed demo_world)"
    by (simp add: demo_world_def)
  note t = supplied_session_discarded [OF h, of "Some ''localhost''" "Some 9000" 1
             "PStr ''admin''" "PStr ''secret''", unfolded Let_def,
             folded demo_client_def demo_state_def]
  from t have a: "session (demo_client 1) = Some (length (closed demo_world))"
    and b: "session (demo_client 1) \<noteq> Some 0"
    and c: "close_session (demo_client 1)"
    and d: "closed (close (demo_client 1) demo_state) = closed demo_world @ [True]"
    by blast+
  from t have "\<forall>net w2 path abs_path query data meth tok url.
                working (demo_client 1) w2 (length (closed demo_world))
                  \<and> request_url (demo_client 1) path abs_path query = Inr url
                \<longrightarrow> log (snd (request net (demo_client 1) w2 path abs_path query data meth tok))
                      = log w2 @ [request_call (length (closed demo_world)) meth url data tok]
                    \<and> call_session (request_call (length (closed demo_world)) meth url data tok)
                        = length (closed demo_world)"
    by blast
  then have "working (demo_client 1) demo_state (length (closed demo_world))
               \<and> request_url (demo_client 1) ''/containers/json'' False [] = Inr ?u
             \<longrightarrow> log (snd (request demo_net (demo_client 1) demo_state ''/containers/json''
                          False [] PNone ''GET'' PNone))
                   = log demo_state
                     @ [request_call (length (closed demo_world)) ''GET'' ?u PNone PNone]"
    by blast
  moreover have l: "length (closed demo_world) = 1" by (simp add: demo_world_def)
  ultimately have e: "call_session (last (log (snd (request demo_net (demo_client 1) demo_state
          ''/containers/json'' False [] PNone ''GET'' PNone)))) = 1"
    using demo_working [of 1] demo_scoped_url [of 1 "''/containers/json''"]
    by (simp add: request_call_def)
  from a b c d e l demo_working [of 1] show ?thesis by (simp add: demo_world_def)
qed

section \<open>Properties of the container operations\<close>

lemma check_resource_given:
  "cid \<noteq> [] \<Longrightarrow> check_resource name f (PStr cid) kwargs s = f (PStr cid) kwargs s"
  by (simp add: check_resource_def)

lemma kill_post:
  assumes "cid \<noteq> []" and "accepts [''signal''] kwargs"
    and "kill_params (dict_get kwargs ''signal'' PNone) = Inr params"
  shows "kill net (PStr cid) kwargs (c, w)
           = post net c w (''/containers/'' @ cid @ ''/kill'') PNone params"
  using assms by (simp add: kill_def check_resource_given py_str_def)

lemma post_fresh:
  assumes "working c w sid" and "token c \<noteq> PNone"
    and "token_expiry c = Some e" and "clock w < e"
    and "request_url c path False query = Inr u"
  shows "log (snd (snd (post net c w path data query)))
           = log w @ [request_call sid ''POST'' u data (token c)]"
  using assms(2-4)
    request_log [OF assms(1) assms(5), of net data "''POST''" "token c"]
  by (auto simp add: post_def auth_def refresh_token_fresh split: prod.splits)

lemma quote_signal: "quote ''signal'' = ''signal''"
  by (simp add: quote_def quote_char_def query_safe_def)

text \<open>
  Claim C8. \<open>kill\<close> on a container identifier hands \<open>_post\<close> an empty query when
  no signal is given (or \<open>None\<close> is), the signal as an integer when it is given and is
  not a string (a boolean becomes 0 or 1), and the string itself when it is a string; on
  a client that can send, with a token that has not expired, the encoded query of the call
  that is sent has no component, or the one component \<open>signal\<close> with the text of that
  value.
\<close>

theorem kill_signal_query:
  assumes "cid \<noteq> []"
  shows "kill net (PStr cid) [] (c, w)
           = post net c w (''/containers/'' @ cid @ ''/kill'') PNone []
       \<and> kill net (PStr cid) [(''signal'', PNone)] (c, w)
           = post net c w (''/containers/'' @ cid @ ''/kill'') PNone []
       \<and> kill net (PStr cid) [(''signal'', PInt n)] (c, w)
           = post net c w (''/containers/'' @ cid @ ''/kill'') PNone [(''signal'', PInt n)]
       \<and> kill net (PStr cid) [(''signal'', PBool b)] (c, w)
           = post net c w (''/containers/'' @ cid @ ''/kill'') PNone
               [(''signal'', PInt (if b then 1 else 0))]
       \<and> kill net (PStr cid) [(''signal'', PStr s)] (c, w)
           = post net c w (''/containers/'' @ cid @ ''/kill'') PNone [(''signal'', PStr s)]
       \<and> (working c w sid \<and> token c \<noteq> PNone \<and> token_expiry c = Some e \<and> clock w < e
            \<longrightarrow> url_query (call_url (last (log (snd (snd
                     (kill net (PStr cid) [] (c, w))))))) = []
              \<and> url_query (call_url (last (log (snd (snd
                     (kill net (PStr cid) [(''signal'', PInt n)] (c, w)))))))
                  = [(''signal'', quote (str_int n))]
              \<and> url_query (call_url (last (log (snd (snd
                     (kill net (PStr cid) [(''signal'', PStr s)] (c, w)))))))
                  = [(''signal'', quote s)])"
proof -
  let ?p = "''/containers/'' @ cid @ ''/kill''"
  have k0: "kill net (PStr cid) [] (c, w) = post net c w ?p PNone []"
    by (rule kill_post [OF assms]) (simp_all add: accepts_def kill_params_def dict_get_def)
  have kn: "kill net (PStr cid) [(''signal'', PNone)] (c, w) = post net c w ?p PNone []"
    by (rule kill_post [OF assms]) (simp_all add: accepts_def kill_params_def dict_get_def)
  have k1: "kill net (PStr cid) [(''signal'', PInt n)] (c, w)
              = post net c w ?p PNone [(''signal'', PInt n)]"
    by (rule kill_post [OF assms]) (simp_all add: accepts_def kill_params_def dict_get_def)
  have k2: "kill net (PStr cid) [(''signal'', PBool b)] (c, w)
              = post net c w ?p PNone [(''signal'', PInt (if b then 1 else 0))]"
    by (rule kill_post [OF assms]) (simp_all add: accepts_def kill_params_def dict_get_def)
  have k3: "kill net (PStr cid) [(''signal'', PStr s)] (c, w)
              = post net c w ?p PNone [(''signal'', PStr s)]"
    by (rule kill_post [OF assms]) (simp_all add: accepts_def kill_params_def dict_get_def)
  have q: "url_query (call_url (last (log (snd (snd (post net c w ?p PNone query)))))) = pairs"
    if "working c w sid" "token c \<noteq> PNone" "token_expiry c = Some e" "clock w < e"
      "query_seq_pairs (drop_none query) = Inr pairs"
    for query pairs
    using post_fresh [OF that(1-4) working_url [OF that(1) that(5)]]
    by (simp add: request_call_def)
  have p0: "query_seq_pairs (drop_none []) = Inr []"
    by (simp add: drop_none_def query_seq_pairs_def)
  have p1: "query_seq_pairs (drop_none [(''signal'', PInt n)])
              = Inr [(''signal'', quote (str_int n))]"
    by (simp add: drop_none_def query_seq_pairs_def query_item_def query_pair_def
          query_var_def quote_signal)
  have p3: "query_seq_pairs (drop_none [(''signal'', PStr s)]) = Inr [(''signal'', quote s)]"
    by (simp add: drop_none_def query_seq_pairs_def query_item_def query_pair_def
          query_var_def quote_signal)
  show ?thesis
    using k0 kn k1 k2 k3 q [OF _ _ _ _ p0] q [OF _ _ _ _ p1] q [OF _ _ _ _ p3] by simp
qed

theorem kill_signal_query_witness:
  "''c1'' \<noteq> []
   \<and> working ((demo_client 1)\<lparr>token := PStr ''tok'', token_expiry := Some 5\<rparr>) demo_state 1
   \<and> url_query (call_url (last (log (snd (snd
        (kill demo_net (PStr ''c1'') [(''signal'', PInt 9)]
           ((demo_client 1)\<lparr>token := PStr ''tok'', token_expiry := Some 5\<rparr>, demo_state)))))))
       = [(''signal'', ''9'')]
   \<and> url_query (call_url (last (log (snd (snd
        (kill demo_net (PStr ''c1'') [(''signal'', PStr ''SIGTERM'')]
           ((demo_client 1)\<lparr>token := PStr ''tok'', token_expiry := Some 5\<rparr>, demo_state)))))))
       = [(''signal'', ''SIGTERM'')]
   \<and> url_query (call_url (last (log (snd (snd
        (kill demo_net (PStr ''c1'') []
           ((demo_client 1)\<lparr>token := PStr ''tok'', token_expiry := Some 5\<rparr>, demo_state)))))))
       = []"
proof -
  let ?c = "(demo_client 1)\<lparr>token := PStr ''tok'', token_expiry := Some 5\<rparr>"
  have h: "''c1'' \<noteq> []" by simp
  have wk: "working ?c demo_state 1"
    using demo_working [of 1] by (simp add: working_def)
  have pre: "working ?c demo_state 1 \<and> token ?c \<noteq> PNone \<and> token_expiry ?c = Some 5
               \<and> clock demo_state < 5"
    using wk by (simp add: demo_state_simps)
  note t = kill_signal_query [OF h, where net = demo_net and n = 9 and s = "''SIGTERM''"
             and c = ?c and w = demo_state and sid = 1 and e = 5 and b = True]
  from t pre have
    "url_query (call_url (last (log (snd (snd (kill demo_net (PStr ''c1'') []
         (?c, demo_state))))))) = []
     \<and> url_query (call_url (last (log (snd (snd (kill demo_net (PStr ''c1'')
         [(''signal'', PInt 9)] (?c, demo_state))))))) = [(''signal'', quote (str_int 9))]
     \<and> url_query (call_url (last (log (snd (snd (kill demo_net (PStr ''c1'')
         [(''signal'', PStr ''SIGTERM'')] (?c, demo_state))))))) = [(''signal'', quote ''SIGTERM'')]"
    by blast
  moreover have "quote (str_int 9) = ''9''" "quote ''SIGTERM'' = ''SIGTERM''"
    by (simp_all add: quote_def quote_char_def query_safe_def str_int_def digit_char_def)
  ultimately show ?thesis using h wk by simp
qed

lemma check_resource_unresolved:
  assumes "(resource_id = PNone \<and> \<not> truthy (dict_get kwargs resource_name PNone))
         \<or> (\<exists>d. resource_id = PDict d \<and> map_of d ''Id'' = None \<and> map_of d ''ID'' = None)
         \<or> (resource_id \<noteq> PNone \<and> (\<forall>d. resource_id \<noteq> PDict d) \<and> \<not> truthy resource_id)"
  shows "check_resource resource_name f resource_id kwargs s = (Inl (NameError ''errors''), s)"
  using assms
  by (cases resource_id)
     (auto simp add: check_resource_def raise_errors_def decorators_globals_def dict_get_def
        split: pyval.splits)

text \<open>
  Claim C7. Each of the eight operations, called without an identifier, raises before any
  call is made: the result is an exception and the world, with its log, is unchanged.
  The exception is not \<open>NullResource\<close>: the \<open>raise\<close> statement reads the name
  \<open>errors\<close>, which utils/decorators.py never binds, so \<open>NameError\<close> is raised in its
  place.
\<close>

theorem null_resource_raises_name_error:
  "inspect_container demo_net PNone [] (demo_client 1, demo_state)
     = (Inl (NameError ''errors''), demo_client 1, demo_state)
   \<and> kill demo_net PNone [] (demo_client 1, demo_state)
     = (Inl (NameError ''errors''), demo_client 1, demo_state)
   \<and> pause demo_net PNone [] (demo_client 1, demo_state)
     = (Inl (NameError ''errors''), demo_client 1, demo_state)
   \<and> restart demo_net PNone [] (demo_client 1, demo_state)
     = (Inl (NameError ''errors''), demo_client 1, demo_state)
   \<and> start demo_net PNone [] (demo_client 1, demo_state)
     = (Inl (NameError ''errors''), demo_client 1, demo_state)
   \<and> stats demo_net PNone [] (demo_client 1, demo_state)
     = (Inl (NameError ''errors''), demo_client 1, demo_state)
   \<and> stop demo_net PNone [] (demo_client 1, demo_state)
     = (Inl (NameError ''errors''), demo_client 1, demo_state)
   \<and> top_container demo_net PNone [] (demo_client 1, demo_state)
     = (Inl (NameError ''errors''), demo_client 1, demo_state)
   \<and> NameError ''errors'' \<noteq> NullResource ''Resource ID was not provided''"
  by (simp add: inspect_container_def kill_def pause_def restart_def start_def stats_def
        stop_def top_container_def check_resource_unresolved dict_get_def)

section \<open>Properties of the filter encoder\<close>

lemma filters_result_acc:
  "distinct (map fst acc @ map fst filters) \<Longrightarrow>
   foldl (\<lambda>result (k, v). dict_set result k (filter_strings v)) acc filters
     = acc @ map (\<lambda>(k, v). (k, filter_strings v)) filters"
proof (induction filters arbitrary: acc)
  case Nil
  then show ?case by simp
next
  case (Cons kv filters)
  obtain k v where kv: "kv = (k, v)" by (cases kv)
  from Cons.prems kv have fresh: "k \<notin> fst ` set acc" by auto
  from Cons.prems kv
  have "distinct (map fst (acc @ [(k, filter_strings v)]) @ map fst filters)" by auto
  from Cons.IH [OF this] kv fresh show ?case
    by (simp add: dict_set_fresh)
qed

lemma filters_result_map:
  "distinct (map fst filters) \<Longrightarrow>
   filters_result filters = map (\<lambda>(k, v). (k, filter_strings v)) filters"
  using filters_result_acc [of "[]" filters] by (simp add: filters_result_def)

lemma filters_result_lookup:
  assumes "distinct (map fst filters)" and "(k, v) \<in> set filters"
  shows "map_of (filters_result filters) k = Some (filter_strings v)"
proof -
  have "map_of filters k = Some v"
    using assms by (rule map_of_is_SomeI)
  then show ?thesis
    unfolding filters_result_map [OF assms(1)]
    by (simp add: map_of_map split_def comp_def
          map_of_map [of "filter_strings" filters, unfolded split_def])
qed

text \<open>
  Claim C5, as amended. For every filter mapping (a dict: its keys are distinct), the
  result keeps the keys, and every value ends up as a list of strings: a boolean that is
  itself the value becomes the one-item list of \<open>true\<close> or \<open>false\<close>, any other single
  item the one-item list of its text, and a list the list of its items, each a string as
  it is and anything else through \<open>str\<close>. The whole result is serialized as one JSON
  object from each key to its list of strings.
\<close>

theorem filters_encoding:
  assumes "distinct (map fst filters)"
  shows "map fst (filters_result filters) = map fst filters
       \<and> (\<forall>k b. (k, One (ABool b)) \<in> set filters
            \<longrightarrow> map_of (filters_result filters) k = Some [if b then ''true'' else ''false''])
       \<and> (\<forall>k n. (k, One (AInt n)) \<in> set filters
            \<longrightarrow> map_of (filters_result filters) k = Some [str_int n])
       \<and> (\<forall>k s. (k, One (AStr s)) \<in> set filters
            \<longrightarrow> map_of (filters_result filters) k = Some [s])
       \<and> (\<forall>k items. (k, Many items) \<in> set filters
            \<longrightarrow> map_of (filters_result filters) k = Some (map str_item items))
       \<and> convert_filters filters
           = ''{'' @ join '', ''
                (map (\<lambda>(k, strings).
                        json_string k @ '': '' @
                        ''['' @ join '', '' (map json_string strings) @ '']'')
                   (filters_result filters)) @ ''}''"
proof -
  note l = filters_result_lookup [OF assms]
  have "map fst (filters_result filters) = map fst filters"
    unfolding filters_result_map [OF assms] by (induction filters) auto
  moreover have "map_of (filters_result filters) k = Some [if b then ''true'' else ''false'']"
    if "(k, One (ABool b)) \<in> set filters" for k b
    using l [OF that] by (simp add: filter_strings_def str_item_def)
  moreover have "map_of (filters_result filters) k = Some [str_int n]"
    if "(k, One (AInt n)) \<in> set filters" for k n
    using l [OF that] by (simp add: filter_strings_def str_item_def)
  moreover have "map_of (filters_result filters) k = Some [s]"
    if "(k, One (AStr s)) \<in> set filters" for k s
    using l [OF that] by (simp add: filter_strings_def str_item_def)
  moreover have "map_of (filters_result filters) k = Some (map str_item items)"
    if "(k, Many items) \<in> set filters" for k items
    using l [OF that] by (simp add: filter_strings_def)
  moreover have "convert_filters filters
           = ''{'' @ join '', ''
                (map (\<lambda>(k, strings).
                        json_string k @ '': '' @
                        ''['' @ join '', '' (map json_string strings) @ '']'')
                   (filters_result filters)) @ ''}''"
    by (simp add: convert_filters_def json_dumps_def json_list_def)
  ultimately show ?thesis by blast
qed

theorem filters_encoding_witness:
  "distinct (map fst [(''dangling'', One (ABool True)),
                      (''label'', Many [AStr ''a'', AStr ''b'']),
                      (''exited'', One (AInt 0))])
   \<and> map_of (filters_result [(''dangling'', One (ABool True)),
                               (''label'', Many [AStr ''a'', AStr ''b'']),
                               (''exited'', One (AInt 0))]) ''dangling'' = Some [''true'']
   \<and> map_of (filters_result [(''dangling'', One (ABool True)),
                               (''label'', Many [AStr ''a'', AStr ''b'']),
                               (''exited'', One (AInt 0))]) ''label'' = Some [''a'', ''b'']
   \<and> convert_filters [(''dangling'', One (ABool True)),
                        (''label'', Many [AStr ''a'', AStr ''b'']),
                        (''exited'', One (AInt 0))]
       = ''{'' @ [CHR 0x22] @ ''dangling'' @ [CHR 0x22] @ '': ['' @ [CHR 0x22] @ ''true''
           @ [CHR 0x22] @ ''], '' @ [CHR 0x22] @ ''label'' @ [CHR 0x22] @ '': [''
           @ [CHR 0x22] @ ''a'' @ [CHR 0x22] @ '', '' @ [CHR 0x22] @ ''b'' @ [CHR 0x22]
           @ ''], '' @ [CHR 0x22] @ ''exited'' @ [CHR 0x22] @ '': ['' @ [CHR 0x22] @ ''0''
           @ [CHR 0x22] @ '']}''"
proof -
  let ?F = "[(''dangling'', One (ABool True)), (''label'', Many [AStr ''a'', AStr ''b'']),
             (''exited'', One (AInt 0))]"
  have h: "distinct (map fst ?F)" by simp
  note t = filters_encoding [OF h]
  from t have "(''dangling'', One (ABool True)) \<in> set ?F
                 \<longrightarrow> map_of (filters_result ?F) ''dangling''
                       = Some [if True then ''true'' else ''false'']"
    by blast
  then have a: "map_of (filters_result ?F) ''dangling'' = Some [''true'']" by simp
  from t have "(''label'', Many [AStr ''a'', AStr ''b'']) \<in> set ?F
                 \<longrightarrow> map_of (filters_result ?F) ''label''
                       = Some (map str_item [AStr ''a'', AStr ''b''])"
    by blast
  then have b: "map_of (filters_result ?F) ''label'' = Some [''a'', ''b'']"
    by (simp add: str_item_def)
  have r: "filters_result ?F
             = [(''dangling'', [''true'']), (''label'', [''a'', ''b'']), (''exited'', [''0''])]"
    by (simp add: filters_result_def filter_strings_def str_item_def str_int_def
          digit_char_def)
  from t have "convert_filters ?F
           = ''{'' @ join '', ''
                (map (\<lambda>(k, strings).
                        json_string k @ '': '' @
                        ''['' @ join '', '' (map json_string strings) @ '']'')
                   (filters_result ?F)) @ ''}''"
    by blast
  then have c: "convert_filters ?F
       = ''{'' @ [CHR 0x22] @ ''dangling'' @ [CHR 0x22] @ '': ['' @ [CHR 0x22] @ ''true''
           @ [CHR 0x22] @ ''], '' @ [CHR 0x22] @ ''label'' @ [CHR 0x22] @ '': [''
           @ [CHR 0x22] @ ''a'' @ [CHR 0x22] @ '', '' @ [CHR 0x22] @ ''b'' @ [CHR 0x22]
           @ ''], '' @ [CHR 0x22] @ ''exited'' @ [CHR 0x22] @ '': ['' @ [CHR 0x22] @ ''0''
           @ [CHR 0x22] @ '']}''"
    unfolding r by (simp add: json_string_def json_char_def Let_def)
  from h a b c show ?thesis by blast
qed

text \<open>
  Claim C5, as stated, fails for a boolean inside a list: the test for booleans is made
  on the value of the key only, so the item goes through \<open>str\<close> and is rendered with a
  capital letter.
\<close>

theorem boolean_in_list_keeps_capital:
  "filter_strings (Many [ABool True]) = [''True'']
   \<and> ''True'' \<noteq> ''true'' \<and> ''True'' \<noteq> ''false''
   \<and> convert_filters [(''dangling'', Many [ABool True])]
       = ''{'' @ [CHR 0x22] @ ''dangling'' @ [CHR 0x22] @ '': [''
           @ [CHR 0x22] @ ''True'' @ [CHR 0x22] @ '']}''"
  by (simp add: filter_strings_def str_item_def convert_filters_def filters_result_def
        json_dumps_def json_list_def json_string_def json_char_def Let_def)

section \<open>Properties of the container collection\<close>

lemma working_kept:
  assumes "working c w sid"
  shows "working (c\<lparr>token := t, token_expiry := x\<rparr>) (w\<lparr>clock := k, log := l\<rparr>) sid"
    and "working c (w\<lparr>clock := k, log := l\<rparr>) sid"
  using assms by (simp_all add: working_def session_open_def)

lemma refresh_ok:
  assumes "ready c w sid" and "exchanges net"
  shows "\<exists>c' w' new. refresh_token net c w = (Inr (), c', w') \<and> ready c' w' sid
                    \<and> log w' = log w @ new \<and> other_calls new = []"
proof (cases "token c = PNone \<or> (\<exists>e. token_expiry c = Some e \<and> e \<le> clock w)")
  case False
  with assms(1) obtain e where "token c \<noteq> PNone" "token_expiry c = Some e" "clock w < e"
    by (auto simp add: ready_def)
  then have "refresh_token net c w = (Inr (), c, w)"
    by (rule refresh_token_fresh)
  with assms(1) show ?thesis by (simp add: other_calls_def)
next
  case True
  from assms(1) have s: "working c w sid" by (simp add: ready_def)
  have "url_path (call_url (exchange_call c sid)) = ''/api/auth''"
    by (simp add: exchange_call_def)
  with assms(2) obtain dt r d jwt where
    n: "net (log w) (exchange_call c sid) = (dt, Response r)"
    and r: "classify r = Inr (Val (PDict d))" and d: "map_of d ''jwt'' = Some jwt"
    unfolding exchanges_def by blast
  have "fst (request net c w ''/auth'' True []
               (PDict [(''username'', username c), (''password'', password c)])
               ''POST'' PNone) = Inr (Val (PDict d))"
    using n r by (simp add: request_result [OF s exchange_url [OF s]] exchange_call_eq)
  moreover have "subscript (Val (PDict d)) ''jwt'' = Inr jwt"
    using d by (simp add: subscript_def py_item_def)
  ultimately have "refresh_token net c w
      = (Inr (), c\<lparr>token := jwt, token_expiry := Some (clock w + dt + token_lifetime)\<rparr>,
         w\<lparr>clock := clock w + dt, log := log w @ [exchange_call c sid]\<rparr>)"
    unfolding refresh_token_exchange [OF s True] using n by (simp add: Let_def)
  moreover have "other_calls [exchange_call c sid] = []"
    by (simp add: other_calls_def exchange_call_def)
  ultimately show ?thesis
    using working_kept(1) [OF s] by (simp add: ready_def)
qed

lemma scoped_path_not_auth: "''/api/endpoints/1/docker'' @ p \<noteq> ''/api/auth''"
  by simp

lemma get_ok:
  assumes "ready c w sid" and "exchanges net"
    and "answers net (''/api/endpoints/1/docker'' @ p) x"
    and "query_seq_pairs (drop_none q) = Inr pairs"
  shows "\<exists>c' w' new. get net c w p q = (x, c', w') \<and> ready c' w' sid
                    \<and> log w' = log w @ new
                    \<and> map sent (other_calls new) = [(''GET'', ''/api/endpoints/1/docker'' @ p)]"
proof -
  from refresh_ok [OF assms(1,2)] obtain c1 w1 new1 where
    r: "refresh_token net c w = (Inr (), c1, w1)" and i1: "ready c1 w1 sid"
    and l1: "log w1 = log w @ new1" and o1: "other_calls new1 = []"
    by blast
  from i1 have s1: "working c1 w1 sid" by (simp add: ready_def)
  let ?u = "\<lparr>url_scheme = ''http'', url_host = host_name c1, url_port = port c1,
             url_path = request_path c1 False p, url_query = pairs\<rparr>"
  have u: "request_url c1 p False q = Inr ?u"
    by (rule working_url [OF s1 assms(4)])
  let ?call = "request_call sid ''GET'' ?u PNone (token c1)"
  have path: "url_path (call_url ?call) = ''/api/endpoints/1/docker'' @ p"
    by (simp add: request_call_def request_path_def)
  with assms(3) obtain dt rr where
    n: "net (log w1) ?call = (dt, Response rr)" and cl: "classify rr = x"
    unfolding answers_def by blast
  have res: "fst (request net c1 w1 p False q PNone ''GET'' (token c1)) = x"
    using n cl by (simp add: request_result [OF s1 u])
  have lg: "log (snd (request net c1 w1 p False q PNone ''GET'' (token c1)))
              = log w @ (new1 @ [?call])"
    using request_log [OF s1 u, of net PNone "''GET''" "token c1"] l1 by simp
  have oc: "map sent (other_calls (new1 @ [?call])) = [(''GET'', ''/api/endpoints/1/docker'' @ p)]"
    using o1 path scoped_path_not_auth [of p]
    by (simp add: other_calls_def sent_def request_call_def)
  obtain y w2 where rq: "request net c1 w1 p False q PNone ''GET'' (token c1) = (y, w2)"
    by (cases "request net c1 w1 p False q PNone ''GET'' (token c1)")
  with res lg have "y = x" "log w2 = log w @ (new1 @ [?call])" by simp_all
  moreover have "ready c1 w2 sid"
    using request_sent [OF s1 u, of net PNone "''GET''" "token c1"] rq i1
      working_kept(2) [OF s1]
    by (auto simp add: ready_def)
  ultimately show ?thesis
    using r rq oc by (auto simp add: get_def auth_def)
qed

lemma collection_get_ok:
  assumes "ready c w sid" and "exchanges net" and "i \<noteq> []"
    and "answers net (''/api/endpoints/1/docker/containers/'' @ i @ ''/json'') (Inr resp)"
  shows "\<exists>c' w' new. collection_get net (PStr i) (c, w) = (prepare_model resp, c', w')
                    \<and> ready c' w' sid \<and> log w' = log w @ new
                    \<and> map sent (other_calls new)
                        = [(''GET'', ''/api/endpoints/1/docker/containers/'' @ i @ ''/json'')]"
proof -
  have e: "query_seq_pairs (drop_none []) = Inr []"
    by (simp add: drop_none_def query_seq_pairs_def)
  from assms(4)
  have a: "answers net (''/api/endpoints/1/docker'' @ (''/containers/'' @ i @ ''/json''))
             (Inr resp)"
    by simp
  from get_ok [OF assms(1,2) a e] obtain c' w' new where
    g: "get net c w (''/containers/'' @ i @ ''/json'') [] = (Inr resp, c', w')"
    and r: "ready c' w' sid" and l: "log w' = log w @ new"
    and o: "map sent (other_calls new)
              = [(''GET'', ''/api/endpoints/1/docker/containers/'' @ i @ ''/json'')]"
    by auto
  have "inspect_container net (PStr i) [] (c, w) = (Inr resp, c', w')"
    using g assms(3)
    by (simp add: inspect_container_def check_resource_given accepts_def py_str_def)
  then have "collection_get net (PStr i) (c, w) = (prepare_model resp, c', w')"
    by (simp add: collection_get_def)
  with r l o show ?thesis by (intro exI conjI)
qed

lemma list_loop_ok:
  assumes "exchanges net"
    and "ignore_removed \<or> (\<forall>i \<in> set ids. found i \<noteq> None)"
    and "[] \<notin> set ids"
    and "\<forall>i \<in> set ids.
           answers net (''/api/endpoints/1/docker/containers/'' @ i @ ''/json'')
             (case found i of
                Some attrs \<Rightarrow> Inr (Val (PDict attrs))
              | None \<Rightarrow> Inr (ActionResponse False (Some (message i))))"
    and "map (\<lambda>r. py_item r ''Id'') entries = map (\<lambda>i. Inr (PStr i)) ids"
    and "ready c w sid"
  shows "\<exists>c' w' new.
           list_loop net ignore_removed entries acc (c, w)
             = (Inr (acc @ map Container (List.map_filter found ids)), c', w')
           \<and> log w' = log w @ new
           \<and> map sent (other_calls new)
               = map (\<lambda>i. (''GET'', ''/api/endpoints/1/docker/containers/'' @ i @ ''/json'')) ids"
  using assms(2-)
proof (induction entries arbitrary: ids acc c w)
  case Nil
  then show ?case by (simp add: List.map_filter_simps other_calls_def)
next
  case (Cons r entries)
  from Cons.prems(4) obtain i ids' where ids: "ids = i # ids'"
    and item: "py_item r ''Id'' = Inr (PStr i)"
    and rest: "map (\<lambda>r. py_item r ''Id'') entries = map (\<lambda>i. Inr (PStr i)) ids'"
    by (cases ids) auto
  from Cons.prems(2) ids have ne: "i \<noteq> []" and ne': "[] \<notin> set ids'" by auto
  let ?p = "''/api/endpoints/1/docker/containers/'' @ i @ ''/json''"
  let ?resp = "case found i of Some attrs \<Rightarrow> Val (PDict attrs)
                             | None \<Rightarrow> ActionResponse False (Some (message i))"
  from Cons.prems(3) ids have "answers net ?p (Inr ?resp)"
    by (cases "found i") auto
  from collection_get_ok [OF Cons.prems(5) assms(1) ne this] obtain c1 w1 new1 where
    g: "collection_get net (PStr i) (c, w) = (prepare_model ?resp, c1, w1)"
    and r1: "ready c1 w1 sid" and l1: "log w1 = log w @ new1"
    and o1: "map sent (other_calls new1) = [(''GET'', ?p)]"
    by (elim exE conjE)
  from Cons.prems(1) ids have ign: "ignore_removed \<or> (\<forall>i \<in> set ids'. found i \<noteq> None)"
    by auto
  from Cons.prems(3) ids have ans: "\<forall>i \<in> set ids'.
           answers net (''/api/endpoints/1/docker/containers/'' @ i @ ''/json'')
             (case found i of
                Some attrs \<Rightarrow> Inr (Val (PDict attrs))
              | None \<Rightarrow> Inr (ActionResponse False (Some (message i))))"
    by simp
  note ih = Cons.IH [OF ign ne' ans rest r1]
  show ?case
  proof (cases "found i")
    case (Some attrs)
    from ih [of "acc @ [Container attrs]"] obtain c2 w2 new2 where
      a: "list_loop net ignore_removed entries (acc @ [Container attrs]) (c1, w1)
            = (Inr ((acc @ [Container attrs]) @ map Container (List.map_filter found ids')),
               c2, w2)"
      and l2: "log w2 = log w1 @ new2"
      and o2: "map sent (other_calls new2)
                 = map (\<lambda>i. (''GET'', ''/api/endpoints/1/docker/containers/'' @ i @ ''/json''))
                     ids'"
      by (elim exE conjE)
    have "list_loop net ignore_removed (r # entries) acc (c, w)
            = (Inr (acc @ map Container (List.map_filter found ids)), c2, w2)"
      using item g a Some ids by (simp add: prepare_model_def List.map_filter_simps)
    moreover have "log w2 = log w @ (new1 @ new2)"
      using l1 l2 by simp
    moreover have "map sent (other_calls (new1 @ new2))
        = map (\<lambda>i. (''GET'', ''/api/endpoints/1/docker/containers/'' @ i @ ''/json'')) ids"
      using o1 o2 ids by (simp add: other_calls_def)
    ultimately show ?thesis by (intro exI conjI)
  next
    case None
    with Cons.prems(1) ids have ig: ignore_removed by auto
    from ih [of acc] obtain c2 w2 new2 where
      a: "list_loop net ignore_removed entries acc (c1, w1)
            = (Inr (acc @ map Container (List.map_filter found ids')), c2, w2)"
      and l2: "log w2 = log w1 @ new2"
      and o2: "map sent (other_calls new2)
                 = map (\<lambda>i. (''GET'', ''/api/endpoints/1/docker/containers/'' @ i @ ''/json''))
                     ids'"
      by (elim exE conjE)
    have "list_loop net ignore_removed (r # entries) acc (c, w)
            = (Inr (acc @ map Container (List.map_filter found ids)), c2, w2)"
      using item g a None ids ig by (simp add: prepare_model_def List.map_filter_simps)
    moreover have "log w2 = log w @ (new1 @ new2)"
      using l1 l2 by simp
    moreover have "map sent (other_calls (new1 @ new2))
        = map (\<lambda>i. (''GET'', ''/api/endpoints/1/docker/containers/'' @ i @ ''/json'')) ids"
      using o1 o2 ids by (simp add: other_calls_def)
    ultimately show ?thesis by (intro exI conjI)
  qed
qed

text \<open>
  Claim C6. A list call that is not sparse, by a client that can send (\<open>since\<close> and
  \<open>before\<close> being \<open>None\<close> or strings), against a server that answers the summary
  with a list of entries whose \<open>Id\<close> are the non-empty strings \<open>ids\<close>, and answers the
  inspect of each id either with its attributes or with a rejection (a 404 for a removed
  entity): besides credential exchanges, the calls made are the summary and then one
  inspect per entry, in order; and when \<open>ignore_removed\<close> is set, or no inspect is
  rejected, the result is exactly the entities whose inspect succeeded, in order, the
  rejected entries being skipped.
\<close>

lemma listing_query_encodes:
  assumes "since = PNone \<or> (\<exists>s. since = PStr s)"
    and "before = PNone \<or> (\<exists>s. before = PStr s)"
  shows "\<exists>pairs. query_seq_pairs (drop_none
           (let params = [(''limit'', PInt l), (''all'', PInt a), (''size'', PInt z),
                          (''trunc_cmd'', PInt t), (''since'', since), (''before'', before)]
            in case filters of
                 None \<Rightarrow> params
               | Some fs \<Rightarrow> if fs \<noteq> []
                           then dict_set params ''filters'' (PStr (convert_filters fs))
                           else params)) = Inr pairs"
  using assms
  by (auto simp add: drop_none_def query_seq_pairs_def query_item_def query_pair_def
        query_var_def Let_def split: option.splits)

theorem list_inspects_each_entry:
  assumes "working c w sid"
    and "token c \<noteq> PNone \<longrightarrow> token_expiry c \<noteq> None"
    and "since = PNone \<or> (\<exists>s. since = PStr s)"
    and "before = PNone \<or> (\<exists>s. before = PStr s)"
    and "exchanges net"
    and "answers net ''/api/endpoints/1/docker/containers/json'' (Inr (Val (PList entries)))"
    and "map (\<lambda>r. py_item r ''Id'') entries = map (\<lambda>i. Inr (PStr i)) ids"
    and "[] \<notin> set ids"
    and "\<forall>i \<in> set ids.
           answers net (''/api/endpoints/1/docker/containers/'' @ i @ ''/json'')
             (case found i of
                Some attrs \<Rightarrow> Inr (Val (PDict attrs))
              | None \<Rightarrow> Inr (ActionResponse False (Some (message i))))"
    and "ignore_removed \<or> (\<forall>i \<in> set ids. found i \<noteq> None)"
  shows "fst (collection_list net all before filters limit since False ignore_removed (c, w))
           = Inr (map Container (List.map_filter found ids))
       \<and> map sent (other_calls (drop (length (log w)) (log (snd (snd
            (collection_list net all before filters limit since False ignore_removed
               (c, w)))))))
           = (''GET'', ''/api/endpoints/1/docker/containers/json'')
             # map (\<lambda>i. (''GET'', ''/api/endpoints/1/docker/containers/'' @ i @ ''/json'')) ids"
proof -
  from assms(1,2) have r0: "ready c w sid" by (simp add: ready_def)
  from assms(6)
  have a: "answers net (''/api/endpoints/1/docker'' @ ''/containers/json'')
             (Inr (Val (PList entries)))"
    by simp
  define params where "params =
     (let params = [(''limit'', PInt (if False then 1 else limit)),
                    (''all'', PInt (if all then 1 else 0)),
                    (''size'', PInt (if False then 1 else 0)),
                    (''trunc_cmd'', PInt (if False then 1 else 0)),
                    (''since'', since),
                    (''before'', before)]
      in case filters of
           None \<Rightarrow> params
         | Some fs \<Rightarrow> if fs \<noteq> []
                     then dict_set params ''filters'' (PStr (convert_filters fs))
                     else params)"
  from listing_query_encodes [OF assms(3,4)] obtain pairs where
    pe: "query_seq_pairs (drop_none params) = Inr pairs"
    unfolding params_def by blast
  from get_ok [OF r0 assms(5) a pe] obtain c1 w1 new1 where
    g: "get net c w ''/containers/json'' params = (Inr (Val (PList entries)), c1, w1)"
    and r1: "ready c1 w1 sid" and l1: "log w1 = log w @ new1"
    and o1: "map sent (other_calls new1) = [(''GET'', ''/api/endpoints/1/docker/containers/json'')]"
    by auto
  have cs: "containers net False all False False since before limit False filters (c, w)
              = (Inr (Val (PList entries)), c1, w1)"
    using g unfolding containers_def params_def by (simp add: Let_def)
  from list_loop_ok [OF assms(5) assms(10) assms(8) assms(9) assms(7) r1, of "[]"]
  obtain c2 w2 new2 where
    ll: "list_loop net ignore_removed entries [] (c1, w1)
           = (Inr ([] @ map Container (List.map_filter found ids)), c2, w2)"
    and l2: "log w2 = log w1 @ new2"
    and o2: "map sent (other_calls new2)
               = map (\<lambda>i. (''GET'', ''/api/endpoints/1/docker/containers/'' @ i @ ''/json'')) ids"
    by (elim exE conjE)
  have cl: "collection_list net all before filters limit since False ignore_removed (c, w)
              = (Inr (map Container (List.map_filter found ids)), c2, w2)"
    using cs ll by (simp add: collection_list_def py_iter_def)
  have "drop (length (log w)) (log w2) = new1 @ new2"
    using l1 l2 by simp
  then have "map sent (other_calls (drop (length (log w)) (log w2)))
      = (''GET'', ''/api/endpoints/1/docker/containers/json'')
        # map (\<lambda>i. (''GET'', ''/api/endpoints/1/docker/containers/'' @ i @ ''/json'')) ids"
    using o1 o2 by (simp add: other_calls_def)
  with cl show ?thesis by simp
qed

lemma classify_json_response: "classify (json_response j) = Inr (Val j)"
  by (simp add: classify_def json_response_def headers_get_def lower_char_def)

lemma classify_error_response:
  "classify (error_response 404 msg) = Inr (ActionResponse False (Some msg))"
  by (simp add: classify_def error_response_def)

theorem list_inspects_each_entry_witness:
  "working (demo_client 1) demo_state 1
   \<and> token (demo_client 1) = PNone
   \<and> exchanges demo_net
   \<and> answers demo_net ''/api/endpoints/1/docker/containers/json''
        (Inr (Val (PList [PDict [(''Id'', PStr ''c1'')], PDict [(''Id'', PStr ''c2'')]])))
   \<and> answers demo_net ''/api/endpoints/1/docker/containers/c1/json''
        (Inr (Val (PDict [(''Id'', PStr ''c1''), (''Name'', PStr ''/web'')])))
   \<and> answers demo_net ''/api/endpoints/1/docker/containers/c2/json''
        (Inr (ActionResponse False (Some ''no such container'')))
   \<and> fst (collection_list demo_net True PNone None (- 1) PNone False True
             (demo_client 1, demo_state))
       = Inr [Container [(''Id'', PStr ''c1''), (''Name'', PStr ''/web'')]]
   \<and> map sent (other_calls (log (snd (snd
        (collection_list demo_net True PNone None (- 1) PNone False True
           (demo_client 1, demo_state))))))
       = [(''GET'', ''/api/endpoints/1/docker/containers/json''),
          (''GET'', ''/api/endpoints/1/docker/containers/c1/json''),
          (''GET'', ''/api/endpoints/1/docker/containers/c2/json'')]"
proof -
  let ?entries = "[PDict [(''Id'', PStr ''c1'')], PDict [(''Id'', PStr ''c2'')]]"
  let ?found = "\<lambda>i. if i = ''c1'' then Some [(''Id'', PStr ''c1''), (''Name'', PStr ''/web'')]
                     else None"
  let ?message = "\<lambda>i::string. ''no such container''"
  have h1: "working (demo_client 1) demo_state 1" by (rule demo_working)
  have t: "token (demo_client 1) = PNone"
    by (simp add: demo_client_simps)
  have hs: "PNone = PNone \<or> (\<exists>s. PNone = PStr s)" by simp
  from t have h2: "token (demo_client 1) \<noteq> PNone \<longrightarrow> token_expiry (demo_client 1) \<noteq> None"
    by simp
  have h3: "exchanges demo_net"
    by (simp add: exchanges_def demo_net_def classify_json_response)
  have h4: "answers demo_net ''/api/endpoints/1/docker/containers/json''
              (Inr (Val (PList ?entries)))"
    by (simp add: answers_def demo_net_def classify_json_response)
  have h5: "map (\<lambda>r. py_item r ''Id'') ?entries = map (\<lambda>i. Inr (PStr i)) [''c1'', ''c2'']"
    by (simp add: py_item_def)
  have h6: "[] \<notin> set [''c1'', ''c2'']" by simp
  have a1: "answers demo_net ''/api/endpoints/1/docker/containers/c1/json''
        (Inr (Val (PDict [(''Id'', PStr ''c1''), (''Name'', PStr ''/web'')])))"
    by (simp add: answers_def demo_net_def classify_json_response)
  have a2: "answers demo_net ''/api/endpoints/1/docker/containers/c2/json''
        (Inr (ActionResponse False (Some ''no such container'')))"
    by (simp add: answers_def demo_net_def classify_error_response)
  have h7: "\<forall>i \<in> set [''c1'', ''c2''].
           answers demo_net (''/api/endpoints/1/docker/containers/'' @ i @ ''/json'')
             (case ?found i of
                Some attrs \<Rightarrow> Inr (Val (PDict attrs))
              | None \<Rightarrow> Inr (ActionResponse False (Some (?message i))))"
    using a1 a2 by simp
  have h8: "True \<or> (\<forall>i \<in> set [''c1'', ''c2'']. ?found i \<noteq> None)" by simp
  note th = list_inspects_each_entry [OF h1 h2 hs hs h3 h4 h5 h6 h7 h8, of True None "- 1"]
  from th have "fst (collection_list demo_net True PNone None (- 1) PNone False True
             (demo_client 1, demo_state))
       = Inr [Container [(''Id'', PStr ''c1''), (''Name'', PStr ''/web'')]]
   \<and> map sent (other_calls (log (snd (snd
        (collection_list demo_net True PNone None (- 1) PNone False True
           (demo_client 1, demo_state))))))
       = [(''GET'', ''/api/endpoints/1/docker/containers/json''),
          (''GET'', ''/api/endpoints/1/docker/containers/c1/json''),
          (''GET'', ''/api/endpoints/1/docker/containers/c2/json'')]"
    by (simp add: List.map_filter_simps demo_state_simps)
  with h1 t h3 h4 a1 a2 show ?thesis by (intro conjI) simp_all
qed

end
